theory Spec2Isabelle
  imports Main "HOL-Library.Sublist"
begin

section \<open>Data model of the chat hook\<close>

text \<open>
  The development embeds the hook \<^verbatim>\<open>useChat\<close> of \<^verbatim>\<open>src/components/chat.tsx\<close>
  (the part after the document separator, lines 179 to 554): the per-request routine
  \<^verbatim>\<open>getStreamedResponse\<close>, the function-call loop of the mutation function handed to
  \<^verbatim>\<open>useSWRMutation\<close>, and the operations \<^verbatim>\<open>append\<close>, \<^verbatim>\<open>reload\<close> and \<^verbatim>\<open>stop\<close>.

  A JavaScript value that may be \<^verbatim>\<open>undefined\<close> is an \<open>option\<close>. A message's
  \<^verbatim>\<open>function_call\<close> is at run time either absent, a string (while the call is
  streaming) or whatever \<^verbatim>\<open>JSON.parse\<close> produced, so it is a JSON value: the test
  \<^verbatim>\<open>typeof function_call === 'string'\<close> is the test for the constructor \<open>JString\<close>.
\<close>

datatype role = User | Assistant | System | Function

datatype json =
    JNull
  | JBool bool
  | JNumber string
  | JString string
  | JArray "json list"
  | JObject "(string \<times> json) list"

record message =
  msg_id :: "string option"
  createdAt :: "nat option"
  content :: string
  role :: role
  name :: "string option"
  function_call :: "json option"

text \<open>\<^verbatim>\<open>OpenAIChatRequest\<close> (lines 232 to 236).\<close>

record chat_request =
  req_messages :: "message list"
  req_functions :: "json list option"
  req_function_call :: "json option"

text \<open>
  What can be thrown. \<open>AbortError\<close> is the rejection of a fetch or of a read whose signal
  was aborted (its \<^verbatim>\<open>name\<close> is \<^verbatim>\<open>'AbortError'\<close>); \<open>Error\<close> is \<^verbatim>\<open>new Error(msg)\<close>;
  \<open>SyntaxError\<close> is what \<^verbatim>\<open>JSON.parse\<close> throws; \<open>TypeError\<close> is a failed network
  exchange or a property read on \<^verbatim>\<open>undefined\<close> or \<^verbatim>\<open>null\<close>; \<open>Thrown\<close> is a value thrown
  by a collaborator that is not an instance of \<^verbatim>\<open>Error\<close> and on which a property can be
  read; \<open>ThrownNullish\<close> is a thrown \<^verbatim>\<open>null\<close> or \<^verbatim>\<open>undefined\<close>.
\<close>

datatype error =
    AbortError
  | Error string
  | SyntaxError string
  | TypeError string
  | Thrown string
  | ThrownNullish

fun instanceof_Error :: "error \<Rightarrow> bool" where
  "instanceof_Error (Thrown _) = False"
| "instanceof_Error ThrownNullish = False"
| "instanceof_Error _ = True"

subsection \<open>The environment: server, stream and collaborators\<close>

text \<open>
  The outcomes of the successive \<^verbatim>\<open>await reader.read()\<close> of one response body. Each
  constructor is one read: \<open>Done\<close> is \<^verbatim>\<open>{done: true}\<close>, \<open>Chunk\<close> carries the bytes of
  \<^verbatim>\<open>value\<close> and the reads that follow, \<open>ReadRejects\<close> is a rejected read. The boolean
  tells whether \<^verbatim>\<open>stop()\<close> was called while that read was pending.
\<close>

datatype reads =
    Done bool
  | Chunk bool string reads
  | ReadRejects bool error

record response =
  res_ok :: bool
  res_text :: "error + string"
  res_body :: "reads option"

datatype fetch_result = Rejects error | Resolves response

text \<open>
  Everything the hook does not decide itself. \<open>fetch env k\<close> is the outcome of the call
  of \<^verbatim>\<open>fetch\<close> made after \<open>k\<close> earlier ones, with the flag telling whether \<^verbatim>\<open>stop()\<close> was
  called while it was pending; \<open>nanoid env k\<close> is the identifier that \<^verbatim>\<open>nanoid()\<close> returns
  after \<open>k\<close> earlier calls, and \<open>Date_now env k\<close> the clock that \<^verbatim>\<open>new Date()\<close> reads after
  \<open>k\<close> calls of \<^verbatim>\<open>fetch\<close>. A call of \<^verbatim>\<open>stop()\<close> is modelled at these two kinds of
  suspension points, the pending fetch and the pending read.
  \<^verbatim>\<open>decodeAIStreamChunk\<close> and \<^verbatim>\<open>nanoid\<close> are imported from \<^verbatim>\<open>../shared/utils\<close>, which
  is not part of the sources, and \<^verbatim>\<open>JSON.parse\<close> is the platform's: all three are
  parameters. The options \<^verbatim>\<open>onFinish\<close> and \<^verbatim>\<open>onError\<close> are observers, so only whether
  they are configured is recorded; \<^verbatim>\<open>onResponse\<close> may throw.
\<close>

record env =
  fetch :: "nat \<Rightarrow> bool \<times> fetch_result"
  functionCallHandler :: "(json \<Rightarrow> chat_request \<Rightarrow> error + chat_request) option"
  onResponse :: "(response \<Rightarrow> error option) option"
  onFinish :: bool
  onError :: bool
  nanoid :: "nat \<Rightarrow> string"
  Date_now :: "nat \<Rightarrow> nat"
  decodeAIStreamChunk :: "string \<Rightarrow> string"
  JSON_parse :: "string \<Rightarrow> json option"

subsection \<open>The state of the hook\<close>

text \<open>
  What the hook and its collaborators see happen, in order. \<open>Fetch\<close> records the
  envelope the request body is built from (the serialisation of the body, the extra
  body fields and the headers are not modelled).
\<close>

datatype event =
    Mutate "message list"
  | Fetch chat_request
  | OnFinish "message option"
  | OnError error
  | HandlerCall json chat_request
  | Abort
  | ReaderCancel

text \<open>
  \<open>store\<close> is the SWR cache entry of the conversation, which \<^verbatim>\<open>mutate\<close> overwrites and
  \<^verbatim>\<open>messagesRef.current\<close> mirrors; the model takes the mirror to be up to date at
  every read. \<open>abortControllerRef\<close> is \<open>True\<close> while the ref holds a controller and
  \<open>False\<close> when it holds \<^verbatim>\<open>null\<close>.
\<close>

record state =
  store :: "message list"
  abortControllerRef :: bool
  nanoid_calls :: nat
  fetch_calls :: nat
  trace :: "event list"

definition mutate :: "message list \<Rightarrow> state \<Rightarrow> state" where
  "mutate data s = s\<lparr>store := data, trace := trace s @ [Mutate data]\<rparr>"

text \<open>\<^verbatim>\<open>stop\<close> (lines 505 to 510).\<close>

definition stop :: "state \<Rightarrow> state" where
  "stop s =
     (if abortControllerRef s
      then s\<lparr>abortControllerRef := False, trace := trace s @ [Abort]\<rparr>
      else s)"

text \<open>A suspension point during which \<^verbatim>\<open>stop()\<close> is or is not called.\<close>

definition await :: "bool \<Rightarrow> state \<Rightarrow> state" where
  "await stopped s = (if stopped then stop s else s)"

definition log_event :: "event \<Rightarrow> state \<Rightarrow> state" where
  "log_event e s = s\<lparr>trace := trace s @ [e]\<rparr>"

section \<open>The per-request routine\<close>

definition marker :: string where
  \<open>marker = ''{"function_call":''\<close>

definition startsWith :: "string \<Rightarrow> string \<Rightarrow> bool" where
  "startsWith s p = prefix p s"

text \<open>The two shapes of the in-progress message (lines 360 to 376).\<close>

definition pending_message :: "string \<Rightarrow> nat \<Rightarrow> string \<Rightarrow> message" where
  "pending_message replyId created result =
     \<lparr>msg_id = Some replyId, createdAt = Some created, content = [],
      role = Assistant, name = None, function_call = Some (JString result)\<rparr>"

definition content_message :: "string \<Rightarrow> nat \<Rightarrow> string \<Rightarrow> message" where
  "content_message replyId created result =
     \<lparr>msg_id = Some replyId, createdAt = Some created, content = result,
      role = Assistant, name = None, function_call = None\<rparr>"

definition in_progress :: "string \<Rightarrow> nat \<Rightarrow> string \<Rightarrow> message" where
  "in_progress replyId created result =
     (if startsWith result marker
      then pending_message replyId created result
      else content_message replyId created result)"

text \<open>
  The loop of lines 352 to 392. It returns the accumulated text and the local variable
  \<^verbatim>\<open>responseMessage\<close>, which is \<open>None\<close> while it has not been assigned.
\<close>

fun read_loop ::
  "env \<Rightarrow> chat_request \<Rightarrow> string \<Rightarrow> nat \<Rightarrow> reads \<Rightarrow> string \<Rightarrow> message option \<Rightarrow> state
     \<Rightarrow> (error + string \<times> message option) \<times> state"
where
  "read_loop env req replyId created (Done stopped) result responseMessage s =
     (Inr (result, responseMessage), await stopped s)"
| "read_loop env req replyId created (ReadRejects stopped err) result responseMessage s =
     (Inl err, await stopped s)"
| "read_loop env req replyId created (Chunk stopped v rest) result responseMessage s =
     (let s1 = await stopped s;
          result' = result @ decodeAIStreamChunk env v;
          responseMessage' = in_progress replyId created result';
          s2 = mutate (req_messages req @ [responseMessage']) s1
      in if \<not> abortControllerRef s2
         then (Inr (result', Some responseMessage'), log_event ReaderCancel s2)
         else read_loop env req replyId created rest result' (Some responseMessage') s2)"

text \<open>
  \<^verbatim>\<open>JSON.parse(result).function_call\<close> (line 396): a syntax error, a property read on
  \<^verbatim>\<open>null\<close>, or the member (the last one of that name; \<^verbatim>\<open>undefined\<close> when there is none
  or when the value is not an object).
\<close>

definition parse_function_call :: "env \<Rightarrow> string \<Rightarrow> error + json option" where
  "parse_function_call env result =
     (case JSON_parse env result of
        None \<Rightarrow> Inl (SyntaxError result)
      | Some JNull \<Rightarrow> Inl (TypeError ''function_call'')
      | Some (JObject kvs) \<Rightarrow> Inr (map_of (rev kvs) ''function_call'')
      | Some _ \<Rightarrow> Inr None)"

text \<open>Lines 394 to 416: the final parse, the last replace, and \<^verbatim>\<open>onFinish\<close>.\<close>

definition finish_stream ::
  "env \<Rightarrow> chat_request \<Rightarrow> string \<Rightarrow> nat \<Rightarrow> string \<Rightarrow> message option \<Rightarrow> state
     \<Rightarrow> (error + message option) \<times> state"
where
  "finish_stream env req replyId created result responseMessage s =
     (if startsWith result marker
      then (case parse_function_call env result of
              Inl err \<Rightarrow> (Inl err, s)
            | Inr parsedFunctionCall \<Rightarrow>
                (let s1 = mutate (req_messages req @
                            [\<lparr>msg_id = Some replyId, createdAt = Some created, content = [],
                              role = Assistant, name = None,
                              function_call = parsedFunctionCall\<rparr>]) s
                 in (Inr responseMessage,
                     if onFinish env then log_event (OnFinish responseMessage) s1 else s1)))
      else (Inr responseMessage,
            if onFinish env then log_event (OnFinish responseMessage) s else s))"

text \<open>Lines 342 to 416: the response has a success status.\<close>

definition read_body ::
  "env \<Rightarrow> chat_request \<Rightarrow> response \<Rightarrow> state \<Rightarrow> (error + message option) \<times> state"
where
  "read_body env req res s =
     (case res_body res of
        None \<Rightarrow> (Inl (Error ''The response body is empty.''), s)
      | Some reader \<Rightarrow>
          (let created = Date_now env (fetch_calls s);
               replyId = nanoid env (nanoid_calls s);
               s1 = s\<lparr>nanoid_calls := Suc (nanoid_calls s)\<rparr>
           in case read_loop env req replyId created reader [] None s1 of
                (Inl err, s2) \<Rightarrow> (Inl err, s2)
              | (Inr (result, responseMessage), s2) \<Rightarrow>
                  finish_stream env req replyId created result responseMessage s2))"

text \<open>Lines 326 to 340: \<^verbatim>\<open>onResponse\<close> and the status check.\<close>

definition check_response ::
  "env \<Rightarrow> chat_request \<Rightarrow> message list \<Rightarrow> response \<Rightarrow> state \<Rightarrow> (error + message option) \<times> state"
where
  "check_response env req previousMessages res s =
     (case (case onResponse env of None \<Rightarrow> None | Some f \<Rightarrow> f res) of
        Some err \<Rightarrow> (Inl err, s)
      | None \<Rightarrow>
          if \<not> res_ok res
          then (let s1 = mutate previousMessages s
                in case res_text res of
                     Inl err \<Rightarrow> (Inl err, s1)
                   | Inr t \<Rightarrow>
                       (Inl (Error (if t = [] then ''Failed to fetch the chat response.'' else t)),
                        s1))
          else read_body env req res s)"

text \<open>\<^verbatim>\<open>getStreamedResponse\<close> (lines 297 to 417).\<close>

definition getStreamedResponse ::
  "env \<Rightarrow> chat_request \<Rightarrow> state \<Rightarrow> (error + message option) \<times> state"
where
  "getStreamedResponse env openAIChatRequest s =
     (let previousMessages = store s;
          s1 = mutate (req_messages openAIChatRequest) s;
          (stopped, res) = fetch env (fetch_calls s1);
          s2 = await stopped
                 ((log_event (Fetch openAIChatRequest) s1)\<lparr>fetch_calls := Suc (fetch_calls s1)\<rparr>)
      in case res of
           Rejects err \<Rightarrow> (Inl err, mutate previousMessages s2)
         | Resolves r \<Rightarrow> check_response env openAIChatRequest previousMessages r s2)"

section \<open>The function-call loop and the public operations\<close>

text \<open>
  How a call of an operation ends: it is still \<open>Running\<close> after the iterations the
  model was given, it \<open>Throws\<close> (the promise rejects), or it \<open>Returns\<close> a value.
\<close>

datatype 'a outcome = Running | Throws error | Returns 'a

text \<open>
  The loop of lines 419 to 438. It has no bound in the source, so the model counts
  iterations: after \<open>fuel\<close> requests it reports \<open>Running\<close>, with the state reached.
  Reading the last element of an empty store is \<^verbatim>\<open>undefined\<close>, and the property read
  on it throws.
\<close>

fun function_call_loop ::
  "nat \<Rightarrow> env \<Rightarrow> chat_request \<Rightarrow> state \<Rightarrow> unit outcome \<times> state"
where
  "function_call_loop 0 env chatRequest s = (Running, s)"
| "function_call_loop (Suc fuel) env chatRequest s =
     (case getStreamedResponse env chatRequest s of
        (Inl err, s1) \<Rightarrow> (Throws err, s1)
      | (Inr _, s1) \<Rightarrow>
          (if store s1 = [] then (Throws (TypeError ''function_call''), s1)
           else
             (case function_call (last (store s1)) of
                None \<Rightarrow> (Returns (), s1)
              | Some (JString _) \<Rightarrow> (Returns (), s1)
              | Some functionCall \<Rightarrow>
                  (case functionCallHandler env of
                     None \<Rightarrow> function_call_loop fuel env chatRequest s1
                   | Some handler \<Rightarrow>
                       (let arg = chatRequest\<lparr>req_messages := store s1\<rparr>;
                            s2 = log_event (HandlerCall functionCall arg) s1
                        in case handler functionCall arg of
                             Inl err \<Rightarrow> (Throws err, s2)
                           | Inr functionCallResponseMessage \<Rightarrow>
                               function_call_loop fuel env functionCallResponseMessage s2)))))"

text \<open>
  The mutation function (lines 292 to 457), which \<^verbatim>\<open>trigger\<close> runs. \<open>Returns None\<close>
  is the returned \<^verbatim>\<open>null\<close>, \<open>Throws\<close> the rethrown error. The catch block first reads
  \<^verbatim>\<open>err.name\<close> (line 446), which itself throws when the caught value is \<^verbatim>\<open>null\<close> or
  \<^verbatim>\<open>undefined\<close>: then neither the controller is cleared nor \<^verbatim>\<open>onError\<close> called.
\<close>

definition trigger ::
  "nat \<Rightarrow> env \<Rightarrow> chat_request \<Rightarrow> state \<Rightarrow> string option outcome \<times> state"
where
  "trigger fuel env initialChatRequest s =
     (case function_call_loop fuel env initialChatRequest (s\<lparr>abortControllerRef := True\<rparr>) of
        (Running, s1) \<Rightarrow> (Running, s1)
      | (Returns _, s1) \<Rightarrow>
          (Returns (Some (content (last (store s1)))), s1\<lparr>abortControllerRef := False\<rparr>)
      | (Throws err, s1) \<Rightarrow>
          (if err = ThrownNullish then (Throws (TypeError ''name''), s1)
           else if err = AbortError then (Returns None, s1\<lparr>abortControllerRef := False\<rparr>)
           else (Throws err,
                 if onError env \<and> instanceof_Error err then log_event (OnError err) s1 else s1)))"

text \<open>\<^verbatim>\<open>append\<close> (lines 464 to 479). \<^verbatim>\<open>!message.id\<close> holds of a missing and of an empty id.\<close>

definition lacks_id :: "message \<Rightarrow> bool" where
  "lacks_id m = (case msg_id m of None \<Rightarrow> True | Some i \<Rightarrow> i = [])"

definition assign_id :: "env \<Rightarrow> message \<Rightarrow> state \<Rightarrow> message \<times> state" where
  "assign_id env m s =
     (if lacks_id m
      then (m\<lparr>msg_id := Some (nanoid env (nanoid_calls s))\<rparr>,
            s\<lparr>nanoid_calls := Suc (nanoid_calls s)\<rparr>)
      else (m, s))"

definition append_request ::
  "message list \<Rightarrow> message \<Rightarrow> json list option \<Rightarrow> json option \<Rightarrow> chat_request" where
  "append_request current m functions fc =
     \<lparr>req_messages = current @ [m], req_functions = functions, req_function_call = fc\<rparr>"

definition append_message ::
  "nat \<Rightarrow> env \<Rightarrow> message \<Rightarrow> json list option \<Rightarrow> json option \<Rightarrow> state
     \<Rightarrow> string option outcome \<times> state"
where
  "append_message fuel env m functions fc s =
     (let (m', s1) = assign_id env m s
      in trigger fuel env (append_request (store s1) m' functions fc) s1)"

text \<open>\<^verbatim>\<open>reload\<close> (lines 481 to 503). \<^verbatim>\<open>slice(0, -1)\<close> is \<open>butlast\<close>.\<close>

definition reload ::
  "nat \<Rightarrow> env \<Rightarrow> json list option \<Rightarrow> json option \<Rightarrow> state
     \<Rightarrow> string option outcome \<times> state"
where
  "reload fuel env functions fc s =
     (if length (store s) = 0 then (Returns None, s)
      else
        (let lastMessage = last (store s)
         in if role lastMessage = Assistant
            then trigger fuel env
                   \<lparr>req_messages = butlast (store s), req_functions = functions,
                    req_function_call = fc\<rparr> s
            else trigger fuel env
                   \<lparr>req_messages = store s, req_functions = functions,
                    req_function_call = fc\<rparr> s))"

section \<open>Vocabulary of the statements\<close>

text \<open>An undisturbed run of chunks in front of the remaining reads.\<close>

fun feed :: "string list \<Rightarrow> reads \<Rightarrow> reads" where
  "feed [] r = r"
| "feed (c # cs) r = Chunk False c (feed cs r)"

text \<open>The text accumulated from a list of chunks.\<close>

definition decoded :: "env \<Rightarrow> string list \<Rightarrow> string" where
  "decoded env chunks = concat (map (decodeAIStreamChunk env) chunks)"

text \<open>What a trace shows of the store, the server, the handler and \<^verbatim>\<open>onFinish\<close>.\<close>

fun mutations :: "event list \<Rightarrow> message list list" where
  "mutations [] = []"
| "mutations (Mutate d # es) = d # mutations es"
| "mutations (_ # es) = mutations es"

fun fetches :: "event list \<Rightarrow> chat_request list" where
  "fetches [] = []"
| "fetches (Fetch r # es) = r # fetches es"
| "fetches (_ # es) = fetches es"

fun handler_calls :: "event list \<Rightarrow> (json \<times> chat_request) list" where
  "handler_calls [] = []"
| "handler_calls (HandlerCall fc r # es) = (fc, r) # handler_calls es"
| "handler_calls (_ # es) = handler_calls es"

fun finishes :: "event list \<Rightarrow> message option list" where
  "finishes [] = []"
| "finishes (OnFinish m # es) = m # finishes es"
| "finishes (_ # es) = finishes es"

text \<open>\<^verbatim>\<open>onResponse\<close> is absent or does not throw on the response.\<close>

definition onResponse_passes :: "env \<Rightarrow> response \<Rightarrow> bool" where
  "onResponse_passes env r = (case onResponse env of None \<Rightarrow> True | Some f \<Rightarrow> f r = None)"

text \<open>
  The successive store states that an undisturbed stream writes: one per non-empty
  prefix of the chunk list, each the envelope's messages followed by the in-progress
  message for the text accumulated so far.
\<close>

definition stream_states ::
  "env \<Rightarrow> chat_request \<Rightarrow> string \<Rightarrow> nat \<Rightarrow> string \<Rightarrow> string list \<Rightarrow> message list list"
where
  "stream_states env req replyId created result chunks =
     map (\<lambda>p. req_messages req @ [in_progress replyId created (result @ decoded env p)])
       (tl (prefixes chunks))"

text \<open>A sequence of store replaces.\<close>

fun replaces :: "message list list \<Rightarrow> state \<Rightarrow> state" where
  "replaces [] s = s"
| "replaces (d # ds) s = replaces ds (mutate d s)"

section \<open>A model of \<^verbatim>\<open>JSON.parse\<close>\<close>

text \<open>
  An instance for the parameter \<open>JSON_parse\<close>: a recursive-descent parser for the JSON
  grammar, with numbers kept as their lexemes. Strings here are byte strings, so an
  escape \<^verbatim>\<open>\uXXXX\<close> is decoded only below 256 and the parser rejects the others.
  Every recursive call follows the consumption of at least one character after at most
  one call that consumed none, so twice the length of the text is enough fuel.
\<close>

definition is_ws :: "char \<Rightarrow> bool" where
  "is_ws c = (c = CHR '' '' \<or> c = CHR 0x09 \<or> c = CHR 0x0A \<or> c = CHR 0x0D)"

definition skip_ws :: "string \<Rightarrow> string" where
  "skip_ws cs = dropWhile is_ws cs"

definition is_digit :: "char \<Rightarrow> bool" where
  "is_digit c = (c \<in> set ''0123456789'')"

definition hex_value :: "char \<Rightarrow> nat option" where
  "hex_value c = map_of (zip ''0123456789abcdef'' [0 ..< 16] @ zip ''ABCDEF'' [10 ..< 16]) c"

definition escape_char :: "char \<Rightarrow> char option" where
  \<open>escape_char e =
     map_of [(CHR 0x22, CHR 0x22), (CHR 0x5C, CHR 0x5C), (CHR ''/'', CHR ''/''),
             (CHR ''b'', CHR 0x08), (CHR ''f'', CHR 0x0C), (CHR ''n'', CHR 0x0A),
             (CHR ''r'', CHR 0x0D), (CHR ''t'', CHR 0x09)] e\<close>

definition unicode_escape :: "char \<Rightarrow> char \<Rightarrow> char \<Rightarrow> char \<Rightarrow> char option" where
  "unicode_escape a b c d =
     (case (hex_value a, hex_value b, hex_value c, hex_value d) of
        (Some h1, Some h2, Some h3, Some h4) \<Rightarrow>
          (let n = ((h1 * 16 + h2) * 16 + h3) * 16 + h4
           in if n < 256 then Some (char_of n) else None)
      | _ \<Rightarrow> None)"

fun parse_chars :: "string \<Rightarrow> (string \<times> string) option" where
  "parse_chars [] = None"
| "parse_chars (c # cs) =
     (if c = CHR 0x22 then Some ([], cs)
      else if c = CHR 0x5C then
        (case cs of
           [] \<Rightarrow> None
         | e # cs1 \<Rightarrow>
             if e = CHR ''u'' then
               (case cs1 of
                  h1 # h2 # h3 # h4 # cs2 \<Rightarrow>
                    (case unicode_escape h1 h2 h3 h4 of
                       None \<Rightarrow> None
                     | Some ch \<Rightarrow>
                         (case parse_chars cs2 of
                            None \<Rightarrow> None
                          | Some (str, r) \<Rightarrow> Some (ch # str, r)))
                | _ \<Rightarrow> None)
             else
               (case escape_char e of
                  None \<Rightarrow> None
                | Some ch \<Rightarrow>
                    (case parse_chars cs1 of
                       None \<Rightarrow> None
                     | Some (str, r) \<Rightarrow> Some (ch # str, r))))
      else if (of_char c :: nat) < 32 then None
      else (case parse_chars cs of
              None \<Rightarrow> None
            | Some (str, r) \<Rightarrow> Some (c # str, r)))"

definition digits1 :: "string \<Rightarrow> (string \<times> string) option" where
  "digits1 cs =
     (if takeWhile is_digit cs = [] then None
      else Some (takeWhile is_digit cs, dropWhile is_digit cs))"

definition parse_int_part :: "string \<Rightarrow> (string \<times> string) option" where
  "parse_int_part cs =
     (case cs of
        [] \<Rightarrow> None
      | d # r \<Rightarrow> if d = CHR ''0'' then Some ([d], r) else digits1 cs)"

definition parse_frac :: "string \<Rightarrow> (string \<times> string) option" where
  "parse_frac cs =
     (case cs of
        [] \<Rightarrow> Some ([], cs)
      | d # r \<Rightarrow>
          if d = CHR ''.''
          then (case digits1 r of None \<Rightarrow> None | Some (ds, r1) \<Rightarrow> Some (d # ds, r1))
          else Some ([], cs))"

definition parse_exp :: "string \<Rightarrow> (string \<times> string) option" where
  "parse_exp cs =
     (case cs of
        [] \<Rightarrow> Some ([], cs)
      | e # r \<Rightarrow>
          if e = CHR ''e'' \<or> e = CHR ''E''
          then (case r of
                  [] \<Rightarrow> None
                | sg # r1 \<Rightarrow>
                    if sg = CHR ''+'' \<or> sg = CHR ''-''
                    then (case digits1 r1 of
                            None \<Rightarrow> None
                          | Some (ds, r2) \<Rightarrow> Some (e # sg # ds, r2))
                    else (case digits1 r of
                            None \<Rightarrow> None
                          | Some (ds, r2) \<Rightarrow> Some (e # ds, r2)))
          else Some ([], cs))"

definition parse_number :: "string \<Rightarrow> (json \<times> string) option" where
  "parse_number cs =
     (let (sg, r0) = (case cs of
                        [] \<Rightarrow> ([], cs)
                      | m # r \<Rightarrow> if m = CHR ''-'' then ([m], r) else ([], cs))
      in case parse_int_part r0 of
           None \<Rightarrow> None
         | Some (ip, r1) \<Rightarrow>
             (case parse_frac r1 of
                None \<Rightarrow> None
              | Some (fp, r2) \<Rightarrow>
                  (case parse_exp r2 of
                     None \<Rightarrow> None
                   | Some (ep, r3) \<Rightarrow> Some (JNumber (sg @ ip @ fp @ ep), r3))))"

fun parse_value :: "nat \<Rightarrow> string \<Rightarrow> (json \<times> string) option"
  and parse_elements :: "nat \<Rightarrow> string \<Rightarrow> (json list \<times> string) option"
  and parse_members :: "nat \<Rightarrow> string \<Rightarrow> ((string \<times> json) list \<times> string) option"
where
  "parse_value 0 cs = None"
| "parse_value (Suc n) cs =
     (case skip_ws cs of
        [] \<Rightarrow> None
      | c # r \<Rightarrow>
          if c = CHR ''{'' then
            (case skip_ws r of
               [] \<Rightarrow> None
             | d # r1 \<Rightarrow>
                 if d = CHR ''}'' then Some (JObject [], r1)
                 else (case parse_members n r of
                         None \<Rightarrow> None
                       | Some (kvs, r2) \<Rightarrow> Some (JObject kvs, r2)))
          else if c = CHR ''['' then
            (case skip_ws r of
               [] \<Rightarrow> None
             | d # r1 \<Rightarrow>
                 if d = CHR '']'' then Some (JArray [], r1)
                 else (case parse_elements n r of
                         None \<Rightarrow> None
                       | Some (vs, r2) \<Rightarrow> Some (JArray vs, r2)))
          else if c = CHR 0x22 then
            (case parse_chars r of
               None \<Rightarrow> None
             | Some (str, r1) \<Rightarrow> Some (JString str, r1))
          else if prefix ''true'' (c # r) then Some (JBool True, drop 4 (c # r))
          else if prefix ''false'' (c # r) then Some (JBool False, drop 5 (c # r))
          else if prefix ''null'' (c # r) then Some (JNull, drop 4 (c # r))
          else parse_number (c # r))"
| "parse_elements 0 cs = None"
| "parse_elements (Suc n) cs =
     (case parse_value n cs of
        None \<Rightarrow> None
      | Some (v, r) \<Rightarrow>
          (case skip_ws r of
             [] \<Rightarrow> None
           | d # r1 \<Rightarrow>
               if d = CHR '','' then
                 (case parse_elements n r1 of
                    None \<Rightarrow> None
                  | Some (vs, r2) \<Rightarrow> Some (v # vs, r2))
               else if d = CHR '']'' then Some ([v], r1)
               else None))"
| "parse_members 0 cs = None"
| "parse_members (Suc n) cs =
     (case skip_ws cs of
        [] \<Rightarrow> None
      | q # r \<Rightarrow>
          if q \<noteq> CHR 0x22 then None
          else
            (case parse_chars r of
               None \<Rightarrow> None
             | Some (k, r1) \<Rightarrow>
                 (case skip_ws r1 of
                    [] \<Rightarrow> None
                  | c # r2 \<Rightarrow>
                      if c \<noteq> CHR '':'' then None
                      else
                        (case parse_value n r2 of
                           None \<Rightarrow> None
                         | Some (v, r3) \<Rightarrow>
                             (case skip_ws r3 of
                                [] \<Rightarrow> None
                              | d # r4 \<Rightarrow>
                                  if d = CHR '','' then
                                    (case parse_members n r4 of
                                       None \<Rightarrow> None
                                     | Some (kvs, r5) \<Rightarrow> Some ((k, v) # kvs, r5))
                                  else if d = CHR ''}'' then Some ([(k, v)], r4)
                                  else None)))))"

definition json_parse :: "string \<Rightarrow> json option" where
  "json_parse cs =
     (case parse_value (2 * length cs + 2) cs of
        None \<Rightarrow> None
      | Some (v, r) \<Rightarrow> if skip_ws r = [] then Some v else None)"


section \<open>Concrete inputs\<close>

text \<open>
  A configuration with both observers, no \<^verbatim>\<open>onResponse\<close>, identifiers \<^verbatim>\<open>id\<close>,
  \<^verbatim>\<open>idx\<close>, \<^verbatim>\<open>idxx\<close> ..., chunks that are already text, and the parser above.
\<close>

definition example_env ::
  "(nat \<Rightarrow> bool \<times> fetch_result) \<Rightarrow> (json \<Rightarrow> chat_request \<Rightarrow> error + chat_request) option \<Rightarrow> env"
where
  "example_env f h =
     \<lparr>fetch = f, functionCallHandler = h, onResponse = None, onFinish = True, onError = True,
      nanoid = (\<lambda>k. ''id'' @ replicate k (CHR ''x'')), Date_now = (\<lambda>k. k),
      decodeAIStreamChunk = (\<lambda>v. v), JSON_parse = json_parse\<rparr>"

text \<open>The message that \<^verbatim>\<open>handleSubmit\<close> builds from the input text (lines 527 to 531).\<close>

definition user_message :: "string \<Rightarrow> message" where
  "user_message input =
     \<lparr>msg_id = None, createdAt = Some 0, content = input, role = User, name = None,
      function_call = None\<rparr>"

definition assistant_message :: "string \<Rightarrow> string \<Rightarrow> message" where
  "assistant_message i c =
     \<lparr>msg_id = Some i, createdAt = Some 0, content = c, role = Assistant, name = None,
      function_call = None\<rparr>"

text \<open>The hook before any request, holding \<^verbatim>\<open>initialMessages\<close>.\<close>

definition initial_state :: "message list \<Rightarrow> state" where
  "initial_state initialMessages =
     \<lparr>store = initialMessages, abortControllerRef = False, nanoid_calls = 0,
      fetch_calls = 0, trace = []\<rparr>"

definition ok_response :: "reads option \<Rightarrow> response" where
  "ok_response b = \<lparr>res_ok = True, res_text = Inr [], res_body = b\<rparr>"

definition error_response :: "string \<Rightarrow> response" where
  "error_response t = \<lparr>res_ok = False, res_text = Inr t, res_body = Some (Done False)\<rparr>"

definition request_of :: "message list \<Rightarrow> chat_request" where
  "request_of ms = \<lparr>req_messages = ms, req_functions = None, req_function_call = None\<rparr>"

text \<open>
  The state in which the body of a request is read: the optimistic replace and the fetch
  have happened and the reply's identifier has been drawn.
\<close>

definition reading :: "chat_request \<Rightarrow> state \<Rightarrow> state" where
  "reading req s =
     (log_event (Fetch req) (mutate (req_messages req) s))
       \<lparr>fetch_calls := Suc (fetch_calls s), nanoid_calls := Suc (nanoid_calls s)\<rparr>"

text \<open>Streams and states for the concrete inputs.\<close>

definition plain_chunks :: "string list" where
  "plain_chunks = [''Hel'', ''lo wor'', ''ld'']"

definition streaming_env :: "string list \<Rightarrow> env" where
  "streaming_env chunks =
     example_env (\<lambda>k. (False, Resolves (ok_response (Some (feed chunks (Done False)))))) None"

definition live_state :: "message list \<Rightarrow> state" where
  "live_state ms = (initial_state ms)\<lparr>abortControllerRef := True\<rparr>"

definition call_text :: string where
  \<open>call_text = ''{"function_call":{"name":"get_current_time","arguments":"{}"}}''\<close>

definition call_value :: json where
  "call_value = JObject [(''name'', JString ''get_current_time''), (''arguments'', JString ''{}'')]"



text \<open>The assistant message that carries the parsed call of the round-trip example.\<close>

definition call_message :: "string \<Rightarrow> nat \<Rightarrow> message" where
  "call_message replyId created =
     \<lparr>msg_id = Some replyId, createdAt = Some created, content = [], role = Assistant,
      name = None, function_call = Some call_value\<rparr>"

text \<open>
  A handler after the \<^verbatim>\<open>get_current_time\<close> branch of the component's handler (lines 68
  to 84): it answers with the history it was given plus one \<^verbatim>\<open>function\<close> message. The
  server of \<open>round_trip_env\<close> answers the first request with the call and every later
  one with plain text.
\<close>

definition time_handler :: "json \<Rightarrow> chat_request \<Rightarrow> error + chat_request" where
  \<open>time_handler functionCall chatRequest =
     Inr (chatRequest\<lparr>req_messages := req_messages chatRequest @
            [\<lparr>msg_id = Some ''f1'', createdAt = None, content = ''{"time":"12:00:00"}'',
              role = Function, name = Some ''get_current_time'', function_call = None\<rparr>]\<rparr>)\<close>

definition round_trip_env :: env where
  "round_trip_env =
     example_env
       (\<lambda>k. (False, Resolves (ok_response (Some (feed (if k = 0 then [call_text] else [''It is noon.''])
                                               (Done False))))))
       (Some time_handler)"

definition round_trip_next :: chat_request where
  \<open>round_trip_next =
     request_of [user_message ''time?'', call_message ''id'' 1,
       \<lparr>msg_id = Some ''f1'', createdAt = None, content = ''{"time":"12:00:00"}'',
        role = Function, name = Some ''get_current_time'', function_call = None\<rparr>]\<close>

text \<open>The same server answering every request with the call, and no handler.\<close>

definition no_handler_env :: env where
  "no_handler_env = streaming_env [call_text]"

text \<open>
  Two bodies during which \<^verbatim>\<open>stop()\<close> is called while the second read is pending: in the
  first the read rejects with the abort, in the second it still delivers its chunk.
\<close>

definition aborted_reads :: reads where
  "aborted_reads = feed [''Hel''] (ReadRejects True AbortError)"

definition late_chunk_reads :: reads where
  "late_chunk_reads = feed [''Hel''] (Chunk True ''lo'' (Chunk False ''!'' (Done False)))"

definition reads_env :: "reads \<Rightarrow> env" where
  "reads_env rs = example_env (\<lambda>k. (False, Resolves (ok_response (Some rs)))) None"


text \<open>
  A server that answers with a non-success status, observed by an \<^verbatim>\<open>onResponse\<close> that
  throws on such a response.
\<close>

definition observer_env :: env where
  "observer_env =
     (example_env (\<lambda>k. (False, Resolves (error_response ''boom''))) None)
       \<lparr>onResponse := Some (\<lambda>r. if res_ok r then None else Some (Error ''unexpected status''))\<rparr>"




section \<open>Basic facts\<close>

lemma mutate_fields [simp]:
  "store (mutate d s) = d"
  "trace (mutate d s) = trace s @ [Mutate d]"
  "abortControllerRef (mutate d s) = abortControllerRef s"
  "nanoid_calls (mutate d s) = nanoid_calls s"
  "fetch_calls (mutate d s) = fetch_calls s"
  by (simp_all add: mutate_def)

lemma log_event_fields [simp]:
  "store (log_event e s) = store s"
  "trace (log_event e s) = trace s @ [e]"
  "abortControllerRef (log_event e s) = abortControllerRef s"
  "nanoid_calls (log_event e s) = nanoid_calls s"
  "fetch_calls (log_event e s) = fetch_calls s"
  by (simp_all add: log_event_def)

lemma await_fields [simp]:
  "store (await b s) = store s"
  "nanoid_calls (await b s) = nanoid_calls s"
  "fetch_calls (await b s) = fetch_calls s"
  "await False s = s"
  by (simp_all add: await_def stop_def)

lemma await_trace:
  "trace (await b s) = trace s @ (if b \<and> abortControllerRef s then [Abort] else [])"
  by (simp add: await_def stop_def)

lemma await_abort [simp]:
  "abortControllerRef (await b s) = (abortControllerRef s \<and> \<not> b)"
  by (simp add: await_def stop_def)

lemma mutations_append [simp]: "mutations (xs @ ys) = mutations xs @ mutations ys"
  by (induction xs rule: mutations.induct) simp_all

lemma fetches_append [simp]: "fetches (xs @ ys) = fetches xs @ fetches ys"
  by (induction xs rule: fetches.induct) simp_all

lemma handler_calls_append [simp]: "handler_calls (xs @ ys) = handler_calls xs @ handler_calls ys"
  by (induction xs rule: handler_calls.induct) simp_all

lemma finishes_append [simp]: "finishes (xs @ ys) = finishes xs @ finishes ys"
  by (induction xs rule: finishes.induct) simp_all

lemma replaces_fields [simp]:
  "trace (replaces ds s) = trace s @ map Mutate ds"
  "store (replaces ds s) = last (store s # ds)"
  "abortControllerRef (replaces ds s) = abortControllerRef s"
  "nanoid_calls (replaces ds s) = nanoid_calls s"
  "fetch_calls (replaces ds s) = fetch_calls s"
  by (induction ds arbitrary: s) simp_all

lemma mutations_map_Mutate [simp]: "mutations (map Mutate ds) = ds"
  by (induction ds) simp_all

lemma stream_states_Nil [simp]: "stream_states env req rid cr result [] = []"
  by (simp add: stream_states_def)

lemma map_prefixes_unfold: "map f (prefixes cs) = f [] # map f (tl (prefixes cs))"
  by (cases cs) simp_all

lemma decoded_Cons [simp]: "decoded env (c # cs) = decodeAIStreamChunk env c @ decoded env cs"
  by (simp add: decoded_def)

lemma decoded_Nil [simp]: "decoded env [] = []"
  by (simp add: decoded_def)

lemma stream_states_Cons:
  "stream_states env req rid cr result (c # cs) =
     (req_messages req @ [in_progress rid cr (result @ decodeAIStreamChunk env c)])
     # stream_states env req rid cr (result @ decodeAIStreamChunk env c) cs"
  by (simp add: stream_states_def o_def map_prefixes_unfold [of _ cs])

section \<open>The reading loop\<close>

text \<open>
  While the controller is in place, a run of undisturbed chunks writes one store state
  per chunk and hands the accumulated text to the reads that follow.
\<close>

lemma read_loop_feed:
  "abortControllerRef s \<Longrightarrow>
   read_loop env req rid cr (feed chunks rest) result rm s =
     read_loop env req rid cr rest (result @ decoded env chunks)
       (if chunks = [] then rm else Some (in_progress rid cr (result @ decoded env chunks)))
       (replaces (stream_states env req rid cr result chunks) s)"
proof (induction chunks arbitrary: result rm s)
  case Nil
  then show ?case by simp
next
  case (Cons c cs)
  then show ?case
    by (simp add: stream_states_Cons Let_def)
qed

text \<open>
  Whatever the stream and the calls of \<^verbatim>\<open>stop()\<close>, a request only ever appends to the
  trace, issues one fetch, and replaces the store by the snapshot or by a sequence that
  starts with the envelope's messages.
\<close>

lemma read_loop_trace:
  "\<exists>evs. trace (snd (read_loop env req rid cr rs result rm s)) = trace s @ evs
     \<and> (\<forall>d \<in> set (mutations evs). prefix (req_messages req) d)
     \<and> fetches evs = [] \<and> handler_calls evs = []"
proof (induction rs arbitrary: result rm s)
  case (Done b)
  then show ?case by (simp add: await_trace)
next
  case (ReadRejects b e)
  then show ?case by (simp add: await_trace)
next
  case (Chunk b v rs)
  let ?s1 = "await b s"
  let ?res = "result @ decodeAIStreamChunk env v"
  let ?m = "in_progress rid cr ?res"
  let ?s2 = "mutate (req_messages req @ [?m]) ?s1"
  show ?case
  proof (cases "abortControllerRef ?s2")
    case False
    then show ?thesis by (simp add: Let_def await_trace)
  next
    case True
    from Chunk.IH [of ?res "Some ?m" ?s2]
    obtain evs where e: "trace (snd (read_loop env req rid cr rs ?res (Some ?m) ?s2)) = trace ?s2 @ evs"
      "\<forall>d \<in> set (mutations evs). prefix (req_messages req) d" "fetches evs = []" "handler_calls evs = []"
      by blast
    from True have "read_loop env req rid cr (Chunk b v rs) result rm s
        = read_loop env req rid cr rs ?res (Some ?m) ?s2"
      by (simp add: Let_def)
    with e show ?thesis by (simp add: await_trace)
  qed
qed

lemma finish_stream_trace:
  "\<exists>evs. trace (snd (finish_stream env req rid cr result rm s)) = trace s @ evs
     \<and> (\<forall>d \<in> set (mutations evs). prefix (req_messages req) d)
     \<and> fetches evs = [] \<and> handler_calls evs = []"
  by (simp add: finish_stream_def Let_def split: sum.splits)

lemma read_body_trace:
  "\<exists>evs. trace (snd (read_body env req r s)) = trace s @ evs
     \<and> (\<forall>d \<in> set (mutations evs). prefix (req_messages req) d)
     \<and> fetches evs = [] \<and> handler_calls evs = []"
proof (cases "res_body r")
  case None
  then show ?thesis by (simp add: read_body_def)
next
  case (Some reader)
  let ?s1 = "s\<lparr>nanoid_calls := Suc (nanoid_calls s)\<rparr>"
  let ?rid = "nanoid env (nanoid_calls s)"
  let ?cr = "Date_now env (fetch_calls s)"
  obtain out s2 where rl: "read_loop env req ?rid ?cr reader [] None ?s1 = (out, s2)"
    by (cases "read_loop env req ?rid ?cr reader [] None ?s1")
  from read_loop_trace [of env req ?rid ?cr reader "[]" None ?s1] rl
  obtain evs where e: "trace s2 = trace s @ evs"
      "\<forall>d \<in> set (mutations evs). prefix (req_messages req) d" "fetches evs = []" "handler_calls evs = []"
    by auto
  show ?thesis
  proof (cases out)
    case (Inl err)
    with Some rl e show ?thesis by (simp add: read_body_def Let_def)
  next
    case (Inr p)
    obtain result rm where p: "p = (result, rm)" by (cases p)
    from finish_stream_trace [of env req ?rid ?cr result rm s2]
    obtain evs' where e': "trace (snd (finish_stream env req ?rid ?cr result rm s2)) = trace s2 @ evs'"
      "\<forall>d \<in> set (mutations evs'). prefix (req_messages req) d" "fetches evs' = []" "handler_calls evs' = []"
      by blast
    with Some rl e Inr p show ?thesis by (auto simp add: read_body_def Let_def)
  qed
qed

lemma check_response_trace:
  "\<exists>evs. trace (snd (check_response env req prev r s)) = trace s @ evs
     \<and> (\<forall>d \<in> set (mutations evs). d = prev \<or> prefix (req_messages req) d)
     \<and> fetches evs = [] \<and> handler_calls evs = []"
proof (cases "(case onResponse env of None \<Rightarrow> None | Some f \<Rightarrow> f r) = None \<and> res_ok r")
  case True
  from read_body_trace [of env req r s] obtain evs where
    "trace (snd (read_body env req r s)) = trace s @ evs"
      "\<forall>d \<in> set (mutations evs). prefix (req_messages req) d" "fetches evs = []" "handler_calls evs = []"
    by blast
  with True show ?thesis by (auto simp add: check_response_def)
next
  case False
  then show ?thesis
    by (auto simp add: check_response_def Let_def split: option.splits sum.splits)
qed

lemma getStreamedResponse_trace:
  "\<exists>evs. trace (snd (getStreamedResponse env req s))
       = trace s @ Mutate (req_messages req) # Fetch req # evs
     \<and> (\<forall>d \<in> set (mutations evs). d = store s \<or> prefix (req_messages req) d)
     \<and> fetches evs = [] \<and> handler_calls evs = []"
proof -
  obtain stopped res where f: "fetch env (fetch_calls s) = (stopped, res)"
    by (cases "fetch env (fetch_calls s)")
  let ?s2 = "await stopped ((log_event (Fetch req) (mutate (req_messages req) s))
                \<lparr>fetch_calls := Suc (fetch_calls s)\<rparr>)"
  have t2: "trace ?s2 = trace s @ Mutate (req_messages req) # Fetch req
                # (if stopped \<and> abortControllerRef s then [Abort] else [])"
    by (simp add: await_trace)
  show ?thesis
  proof (cases res)
    case (Rejects err)
    with f t2 show ?thesis by (simp add: getStreamedResponse_def Let_def)
  next
    case (Resolves r)
    from check_response_trace [of env req "store s" r ?s2] obtain evs where
      "trace (snd (check_response env req (store s) r ?s2)) = trace ?s2 @ evs"
      "\<forall>d \<in> set (mutations evs). d = store s \<or> prefix (req_messages req) d"
      "fetches evs = []" "handler_calls evs = []"
      by blast
    with Resolves f t2 show ?thesis by (simp add: getStreamedResponse_def Let_def)
  qed
qed


section \<open>The loop only appends to the trace\<close>

lemma getStreamedResponse_starts:
  "prefix (trace s @ [Mutate (req_messages req), Fetch req]) (trace (snd (getStreamedResponse env req s)))"
  using getStreamedResponse_trace [of env req s] by (auto simp add: prefix_def)

lemma function_call_loop_extends:
  "prefix (trace s) (trace (snd (function_call_loop fuel env req s)))"
proof (induction fuel arbitrary: req s)
  case 0
  then show ?case by simp
next
  case (Suc fuel)
  obtain out s1 where g: "getStreamedResponse env req s = (out, s1)"
    by (cases "getStreamedResponse env req s")
  from getStreamedResponse_starts [of s req env] g
  have e: "prefix (trace s) (trace s1)" by (auto simp add: prefix_def)
  have rec: "prefix (trace s) (trace (snd (function_call_loop fuel env req' s')))"
    if "prefix (trace s1) (trace s')" for req' s'
    using that e Suc.IH [of s' req'] by (meson prefix_order.trans)
  have here: "prefix (trace s) (trace s')" if "prefix (trace s1) (trace s')" for s'
    using that e by (meson prefix_order.trans)
  show ?case
    using g rec [of s1] rec [of "log_event _ s1"] here [of s1] here [of "log_event _ s1"]
    by (auto simp add: Let_def split: sum.splits option.splits json.splits)
qed

lemma function_call_loop_starts:
  "prefix (trace s @ [Mutate (req_messages req), Fetch req])
     (trace (snd (function_call_loop (Suc fuel) env req s)))"
proof -
  obtain out s1 where g: "getStreamedResponse env req s = (out, s1)"
    by (cases "getStreamedResponse env req s")
  let ?p = "trace s @ [Mutate (req_messages req), Fetch req]"
  from getStreamedResponse_starts [of s req env] g
  have e: "prefix ?p (trace s1)" by simp
  have rec: "prefix ?p (trace (snd (function_call_loop fuel env req' s')))"
    if "prefix (trace s1) (trace s')" for req' s'
    using that e function_call_loop_extends [of s' fuel env req'] by (meson prefix_order.trans)
  have here: "prefix ?p (trace s')" if "prefix (trace s1) (trace s')" for s'
    using that e by (meson prefix_order.trans)
  show ?thesis
    using g rec [of s1] rec [of "log_event _ s1"] here [of s1] here [of "log_event _ s1"]
    by (auto simp add: Let_def split: sum.splits option.splits json.splits)
qed

lemma trigger_starts:
  "prefix (trace s @ [Mutate (req_messages req), Fetch req])
     (trace (snd (trigger (Suc fuel) env req s)))"
proof -
  let ?s0 = "s\<lparr>abortControllerRef := True\<rparr>"
  obtain out s1 where l: "function_call_loop (Suc fuel) env req ?s0 = (out, s1)"
    by (cases "function_call_loop (Suc fuel) env req ?s0")
  from function_call_loop_starts [of ?s0 req fuel env] l
  have "prefix (trace s @ [Mutate (req_messages req), Fetch req]) (trace s1)" by simp
  then have "prefix (trace s @ [Mutate (req_messages req), Fetch req]) (trace (log_event e s1))" for e
    by (auto simp add: prefix_def)
  with \<open>prefix _ (trace s1)\<close> l show ?thesis
    by (cases out) (simp_all add: trigger_def)
qed

section \<open>Failed exchanges\<close>

lemma failed_exchange:
  assumes f: "fetch env (fetch_calls s) = (stopped, res)"
    and bad: "(\<exists>err. res = Rejects err) \<or> (\<exists>r. res = Resolves r \<and> \<not> res_ok r \<and> onResponse_passes env r)"
  shows "\<exists>err s1. getStreamedResponse env req s = (Inl err, s1) \<and> store s1 = store s
           \<and> mutations (trace s1) = mutations (trace s) @ [req_messages req, store s]
           \<and> (\<forall>a. fst (getStreamedResponse env req (s\<lparr>abortControllerRef := a\<rparr>)) = Inl err)"
  using assms
  by (auto simp add: getStreamedResponse_def check_response_def onResponse_passes_def Let_def await_trace
      split: option.splits sum.splits)

text \<open>
  Claim C1, as the code has it. When the exchange itself fails (\<^verbatim>\<open>fetch\<close> rejects) or the
  response has a non-success status on which \<^verbatim>\<open>onResponse\<close>, if configured, did not throw,
  the per-request routine throws with the store back at the snapshot taken before the
  optimistic update: the store was replaced exactly twice, by the envelope's messages
  and then by the snapshot. The mutation function ends with the same store; it rethrows
  the error, or returns \<^verbatim>\<open>null\<close> when the error is an abort, or throws the type error of
  its own catch block when the thrown value is \<^verbatim>\<open>null\<close> or \<^verbatim>\<open>undefined\<close>.
\<close>

theorem failed_exchange_rolls_back:
  assumes f: "fetch env (fetch_calls s) = (stopped, res)"
    and bad: "(\<exists>err. res = Rejects err) \<or> (\<exists>r. res = Resolves r \<and> \<not> res_ok r \<and> onResponse_passes env r)"
  shows "\<exists>err. fst (getStreamedResponse env req s) = Inl err
           \<and> store (snd (getStreamedResponse env req s)) = store s
           \<and> mutations (trace (snd (getStreamedResponse env req s)))
               = mutations (trace s) @ [req_messages req, store s]
           \<and> fst (trigger (Suc fuel) env req s) =
               (if err = ThrownNullish then Throws (TypeError ''name'')
                else if err = AbortError then Returns None else Throws err)
           \<and> store (snd (trigger (Suc fuel) env req s)) = store s
           \<and> mutations (trace (snd (trigger (Suc fuel) env req s)))
               = mutations (trace s) @ [req_messages req, store s]"
proof -
  let ?s0 = "s\<lparr>abortControllerRef := True\<rparr>"
  from failed_exchange [OF f bad, of req] obtain err s1 where
    g: "getStreamedResponse env req s = (Inl err, s1)" "store s1 = store s"
       "mutations (trace s1) = mutations (trace s) @ [req_messages req, store s]"
       "\<forall>a. fst (getStreamedResponse env req (s\<lparr>abortControllerRef := a\<rparr>)) = Inl err"
    by blast
  have f0: "fetch env (fetch_calls ?s0) = (stopped, res)" using f by simp
  from failed_exchange [OF f0 bad, of req] obtain err' s1' where
    g0: "getStreamedResponse env req ?s0 = (Inl err', s1')" "store s1' = store s"
       "mutations (trace s1') = mutations (trace s) @ [req_messages req, store s]"
    by auto
  from g(4) have "fst (getStreamedResponse env req ?s0) = Inl err" by blast
  with g0(1) have "err' = err" by simp
  with g g0 show ?thesis
    by (auto simp add: trigger_def)
qed


theorem failed_exchange_rolls_back_witness:
  "fetch (example_env (\<lambda>k. (False, Resolves (error_response ''boom''))) None)
       (fetch_calls (initial_state [assistant_message ''a0'' ''Welcome'']))
     = (False, Resolves (error_response ''boom''))
   \<and> \<not> res_ok (error_response ''boom'')
   \<and> onResponse_passes (example_env (\<lambda>k. (False, Resolves (error_response ''boom''))) None)
        (error_response ''boom'')
   \<and> fst (trigger (Suc 0) (example_env (\<lambda>k. (False, Resolves (error_response ''boom''))) None)
        (request_of [assistant_message ''a0'' ''Welcome'', user_message ''hi''])
        (initial_state [assistant_message ''a0'' ''Welcome''])) = Throws (Error ''boom'')
   \<and> store (snd (trigger (Suc 0) (example_env (\<lambda>k. (False, Resolves (error_response ''boom''))) None)
        (request_of [assistant_message ''a0'' ''Welcome'', user_message ''hi''])
        (initial_state [assistant_message ''a0'' ''Welcome''])))
      = [assistant_message ''a0'' ''Welcome'']
   \<and> fetch (example_env (\<lambda>k. (False, Rejects (TypeError ''Failed to fetch''))) None)
       (fetch_calls (initial_state [assistant_message ''a0'' ''Welcome'']))
     = (False, Rejects (TypeError ''Failed to fetch''))
   \<and> fst (trigger (Suc 0) (example_env (\<lambda>k. (False, Rejects (TypeError ''Failed to fetch''))) None)
        (request_of [assistant_message ''a0'' ''Welcome'', user_message ''hi''])
        (initial_state [assistant_message ''a0'' ''Welcome''])) = Throws (TypeError ''Failed to fetch'')
   \<and> store (snd (trigger (Suc 0)
        (example_env (\<lambda>k. (False, Rejects (TypeError ''Failed to fetch''))) None)
        (request_of [assistant_message ''a0'' ''Welcome'', user_message ''hi''])
        (initial_state [assistant_message ''a0'' ''Welcome''])))
      = [assistant_message ''a0'' ''Welcome'']"
proof -
  let ?env = "example_env (\<lambda>k. (False, Resolves (error_response ''boom''))) None"
  let ?envr = "example_env (\<lambda>k. (False, Rejects (TypeError ''Failed to fetch''))) None"
  let ?s = "initial_state [assistant_message ''a0'' ''Welcome'']"
  let ?req = "request_of [assistant_message ''a0'' ''Welcome'', user_message ''hi'']"
  have h1: "fetch ?env (fetch_calls ?s) = (False, Resolves (error_response ''boom''))"
    by (simp add: example_env_def)
  have h2: "(\<exists>err. Resolves (error_response ''boom'') = Rejects err)
      \<or> (\<exists>r. Resolves (error_response ''boom'') = Resolves r \<and> \<not> res_ok r \<and> onResponse_passes ?env r)"
    by (simp add: error_response_def onResponse_passes_def example_env_def)
  have e: "fst (getStreamedResponse ?env ?req ?s) = Inl (Error ''boom'')"
    by (simp add: getStreamedResponse_def check_response_def example_env_def initial_state_def
        error_response_def Let_def)
  from failed_exchange_rolls_back [OF h1 h2, of ?req 0] e
  have a: "fst (trigger (Suc 0) ?env ?req ?s) = Throws (Error ''boom'')
      \<and> store (snd (trigger (Suc 0) ?env ?req ?s)) = [assistant_message ''a0'' ''Welcome'']"
    by (auto simp add: initial_state_def)
  have r1: "fetch ?envr (fetch_calls ?s) = (False, Rejects (TypeError ''Failed to fetch''))"
    by (simp add: example_env_def)
  have r2: "(\<exists>err. Rejects (TypeError ''Failed to fetch'') = Rejects err)
      \<or> (\<exists>r. Rejects (TypeError ''Failed to fetch'') = Resolves r \<and> \<not> res_ok r
            \<and> onResponse_passes ?envr r)"
    by simp
  have er: "fst (getStreamedResponse ?envr ?req ?s) = Inl (TypeError ''Failed to fetch'')"
    by (simp add: getStreamedResponse_def example_env_def initial_state_def Let_def)
  from failed_exchange_rolls_back [OF r1 r2, of ?req 0] er
  have b: "fst (trigger (Suc 0) ?envr ?req ?s) = Throws (TypeError ''Failed to fetch'')
      \<and> store (snd (trigger (Suc 0) ?envr ?req ?s)) = [assistant_message ''a0'' ''Welcome'']"
    by (auto simp add: initial_state_def)
  have h3: "\<not> res_ok (error_response ''boom'')" by (simp add: error_response_def)
  have h4: "onResponse_passes ?env (error_response ''boom'')"
    by (simp add: onResponse_passes_def example_env_def)
  from a b h1 h3 h4 r1 show ?thesis by blast
qed

text \<open>
  Claim C1 as stated fails: \<^verbatim>\<open>onResponse\<close> runs before the status check (lines 326 to
  340), and when it throws on a response with a non-success status the routine throws
  with no rollback. The store was replaced once, by the envelope's messages, and stays
  at the snapshot plus the appended user message.
\<close>

theorem observer_throw_skips_rollback:
  "fst (trigger (Suc 0) observer_env
          (request_of [assistant_message ''a0'' ''Welcome'', user_message ''hi''])
          (initial_state [assistant_message ''a0'' ''Welcome'']))
     = Throws (Error ''unexpected status'')
   \<and> mutations (trace (snd (trigger (Suc 0) observer_env
          (request_of [assistant_message ''a0'' ''Welcome'', user_message ''hi''])
          (initial_state [assistant_message ''a0'' ''Welcome'']))))
     = [[assistant_message ''a0'' ''Welcome'', user_message ''hi'']]
   \<and> store (snd (trigger (Suc 0) observer_env
          (request_of [assistant_message ''a0'' ''Welcome'', user_message ''hi''])
          (initial_state [assistant_message ''a0'' ''Welcome''])))
     = [assistant_message ''a0'' ''Welcome'', user_message ''hi'']
   \<and> store (snd (trigger (Suc 0) observer_env
          (request_of [assistant_message ''a0'' ''Welcome'', user_message ''hi''])
          (initial_state [assistant_message ''a0'' ''Welcome''])))
     \<noteq> store (initial_state [assistant_message ''a0'' ''Welcome''])"
  by (simp add: trigger_def getStreamedResponse_def check_response_def observer_env_def
      example_env_def error_response_def initial_state_def request_of_def Let_def)

section \<open>Reload\<close>

text \<open>
  Claim C8. On a non-empty sequence, \<^verbatim>\<open>reload\<close> runs the mutation function on the
  sequence without its last message when that message's role is \<^verbatim>\<open>assistant\<close>, and on
  the sequence unchanged otherwise; the call begins with the optimistic replace by that
  sequence and the fetch of that envelope.
\<close>

theorem reload_resubmits:
  assumes "store s \<noteq> []"
  shows "reload fuel env functions fc s =
           trigger fuel env
             \<lparr>req_messages = (if role (last (store s)) = Assistant then butlast (store s) else store s),
              req_functions = functions, req_function_call = fc\<rparr> s
       \<and> prefix (trace s @
                 [Mutate (if role (last (store s)) = Assistant then butlast (store s) else store s),
                  Fetch \<lparr>req_messages = (if role (last (store s)) = Assistant
                                          then butlast (store s) else store s),
                         req_functions = functions, req_function_call = fc\<rparr>])
           (trace (snd (reload (Suc fuel) env functions fc s)))"
proof -
  let ?req = "\<lparr>req_messages = (if role (last (store s)) = Assistant then butlast (store s) else store s),
              req_functions = functions, req_function_call = fc\<rparr>"
  have r: "reload k env functions fc s = trigger k env ?req s" for k
    using assms by (simp add: reload_def Let_def)
  from trigger_starts [of s ?req fuel env] r show ?thesis by simp
qed


theorem reload_resubmits_witness:
  "store (initial_state [user_message ''hi'', assistant_message ''a1'' ''Hello'']) \<noteq> []
   \<and> reload 1 (example_env (\<lambda>k. (False, Rejects (TypeError ''Failed to fetch''))) None) None None
        (initial_state [user_message ''hi'', assistant_message ''a1'' ''Hello''])
     = trigger 1 (example_env (\<lambda>k. (False, Rejects (TypeError ''Failed to fetch''))) None)
         (request_of [user_message ''hi''])
         (initial_state [user_message ''hi'', assistant_message ''a1'' ''Hello''])
   \<and> store (initial_state [user_message ''hi'']) \<noteq> []
   \<and> reload 1 (example_env (\<lambda>k. (False, Rejects (TypeError ''Failed to fetch''))) None) None None
        (initial_state [user_message ''hi''])
     = trigger 1 (example_env (\<lambda>k. (False, Rejects (TypeError ''Failed to fetch''))) None)
         (request_of [user_message ''hi''])
         (initial_state [user_message ''hi''])"
proof -
  let ?env = "example_env (\<lambda>k. (False, Rejects (TypeError ''Failed to fetch''))) None"
  let ?s1 = "initial_state [user_message ''hi'', assistant_message ''a1'' ''Hello'']"
  let ?s2 = "initial_state [user_message ''hi'']"
  have h1: "store ?s1 \<noteq> []" by (simp add: initial_state_def)
  have h2: "store ?s2 \<noteq> []" by (simp add: initial_state_def)
  from reload_resubmits [OF h1, of 1 ?env None None] reload_resubmits [OF h2, of 1 ?env None None]
  show ?thesis
    by (simp add: initial_state_def request_of_def assistant_message_def user_message_def)
qed

section \<open>Undisturbed streams\<close>

text \<open>
  A request whose fetch resolves with a success status while the controller is in place,
  and whose body starts with a run of undisturbed chunks: the routine reaches the reads
  that follow with one store state written per chunk.
\<close>

lemma reading_fields [simp]:
  "store (reading req s) = req_messages req"
  "trace (reading req s) = trace s @ [Mutate (req_messages req), Fetch req]"
  "abortControllerRef (reading req s) = abortControllerRef s"
  "nanoid_calls (reading req s) = Suc (nanoid_calls s)"
  "fetch_calls (reading req s) = Suc (fetch_calls s)"
  by (simp_all add: reading_def)

lemma getStreamedResponse_feed:
  assumes live: "abortControllerRef s"
    and f: "fetch env (fetch_calls s) = (False, Resolves r)"
    and ok: "res_ok r" and pass: "onResponse_passes env r"
    and body: "res_body r = Some (feed chunks rest)"
  shows "getStreamedResponse env req s =
     (case read_loop env req (nanoid env (nanoid_calls s)) (Date_now env (Suc (fetch_calls s)))
             rest (decoded env chunks)
             (if chunks = [] then None
              else Some (in_progress (nanoid env (nanoid_calls s))
                           (Date_now env (Suc (fetch_calls s))) (decoded env chunks)))
             (replaces (stream_states env req (nanoid env (nanoid_calls s))
                          (Date_now env (Suc (fetch_calls s))) [] chunks) (reading req s)) of
        (Inl err, s2) \<Rightarrow> (Inl err, s2)
      | (Inr (result, responseMessage), s2) \<Rightarrow>
          finish_stream env req (nanoid env (nanoid_calls s)) (Date_now env (Suc (fetch_calls s)))
            result responseMessage s2)"
proof -
  let ?s2 = "(log_event (Fetch req) (mutate (req_messages req) s))\<lparr>fetch_calls := Suc (fetch_calls s)\<rparr>"
  have g: "getStreamedResponse env req s = read_body env req r ?s2"
    using f ok pass
    by (simp add: getStreamedResponse_def check_response_def onResponse_passes_def Let_def
        split: option.splits)
  have l: "abortControllerRef (reading req s)" using live by simp
  show ?thesis
    unfolding g
    using body read_loop_feed [OF l, of env req _ _ chunks rest "[]" None]
    by (simp add: read_body_def Let_def reading_def)
qed

lemma getStreamedResponse_undisturbed:
  assumes live: "abortControllerRef s"
    and f: "fetch env (fetch_calls s) = (False, Resolves r)"
    and ok: "res_ok r" and pass: "onResponse_passes env r"
    and body: "res_body r = Some (feed chunks (Done False))"
  shows "getStreamedResponse env req s =
     finish_stream env req (nanoid env (nanoid_calls s)) (Date_now env (Suc (fetch_calls s)))
       (decoded env chunks)
       (if chunks = [] then None
        else Some (in_progress (nanoid env (nanoid_calls s)) (Date_now env (Suc (fetch_calls s)))
                     (decoded env chunks)))
       (replaces (stream_states env req (nanoid env (nanoid_calls s))
                    (Date_now env (Suc (fetch_calls s))) [] chunks) (reading req s))"
  using getStreamedResponse_feed [OF live f ok pass body, of req] by simp

lemma decoded_append [simp]: "decoded env (xs @ ys) = decoded env xs @ decoded env ys"
  by (simp add: decoded_def)

lemma startsWith_prefix_mono:
  assumes "prefix p chunks" and "startsWith (decoded env p) marker"
  shows "startsWith (decoded env chunks) marker"
proof -
  from assms(1) obtain zs where "chunks = p @ zs" by (auto simp add: prefix_def)
  then have "prefix (decoded env p) (decoded env chunks)" by simp
  with assms(2) show ?thesis
    unfolding startsWith_def by (meson prefix_order.trans)
qed

lemma in_tl_prefixes: "p \<in> set (tl (prefixes chunks)) \<Longrightarrow> prefix p chunks"
  by (cases chunks) (auto simp add: in_set_prefixes)

lemma stream_states_plain:
  assumes "\<not> startsWith (decoded env chunks) marker"
  shows "stream_states env req rid cr [] chunks =
     map (\<lambda>p. req_messages req @ [content_message rid cr (decoded env p)]) (tl (prefixes chunks))"
  unfolding stream_states_def
proof (rule map_cong [OF refl])
  fix p assume "p \<in> set (tl (prefixes chunks))"
  then have "prefix p chunks" by (rule in_tl_prefixes)
  with assms have "\<not> startsWith (decoded env p) marker"
    using startsWith_prefix_mono by blast
  then show "req_messages req @ [in_progress rid cr ([] @ decoded env p)]
      = req_messages req @ [content_message rid cr (decoded env p)]"
    by (simp add: in_progress_def)
qed

lemma mutations_map_comp [simp]: "mutations (map (Mutate \<circ> f) xs) = map f xs"
  by (induction xs) simp_all

lemma fetches_map_Mutate [simp]: "fetches (map Mutate ds) = []"
  by (induction ds) simp_all


lemma install_live: "abortControllerRef s \<Longrightarrow> s\<lparr>abortControllerRef := True\<rparr> = s"
  by simp


lemma json_parse_call_text:
  "json_parse call_text = Some (JObject [(''function_call'', call_value)])"
  unfolding call_text_def call_value_def by code_simp


section \<open>A stream that delivers nothing\<close>

text \<open>
  Claim C10. When the response has a success status and the first read of its body
  reports done, the per-request routine returns the unassigned \<^verbatim>\<open>responseMessage\<close>, that
  is \<^verbatim>\<open>undefined\<close>; the store was replaced once, by the envelope's messages, so no
  assistant message was appended; and \<^verbatim>\<open>onFinish\<close>, when configured, was called once,
  with \<^verbatim>\<open>undefined\<close>.
\<close>

theorem zero_chunks_undefined:
  assumes f: "fetch env (fetch_calls s) = (stopped, Resolves r)"
    and ok: "res_ok r" and pass: "onResponse_passes env r"
    and body: "res_body r = Some (Done stopped')"
  shows "fst (getStreamedResponse env req s) = Inr None
    \<and> store (snd (getStreamedResponse env req s)) = req_messages req
    \<and> mutations (trace (snd (getStreamedResponse env req s))) = mutations (trace s) @ [req_messages req]
    \<and> finishes (trace (snd (getStreamedResponse env req s)))
        = finishes (trace s) @ (if onFinish env then [None] else [])"
  using assms
  by (auto simp add: getStreamedResponse_def check_response_def read_body_def finish_stream_def
      onResponse_passes_def startsWith_def marker_def await_trace split: option.splits)

theorem zero_chunks_undefined_witness:
  "fetch (example_env (\<lambda>k. (False, Resolves (ok_response (Some (Done False))))) None)
       (fetch_calls (initial_state [])) = (False, Resolves (ok_response (Some (Done False))))
   \<and> res_ok (ok_response (Some (Done False)))
   \<and> onResponse_passes (example_env (\<lambda>k. (False, Resolves (ok_response (Some (Done False))))) None)
        (ok_response (Some (Done False)))
   \<and> res_body (ok_response (Some (Done False))) = Some (Done False)
   \<and> fst (getStreamedResponse (example_env (\<lambda>k. (False, Resolves (ok_response (Some (Done False))))) None)
        (request_of [user_message ''hi'']) (initial_state [])) = Inr None
   \<and> store (snd (getStreamedResponse
        (example_env (\<lambda>k. (False, Resolves (ok_response (Some (Done False))))) None)
        (request_of [user_message ''hi'']) (initial_state []))) = [user_message ''hi'']
   \<and> finishes (trace (snd (getStreamedResponse
        (example_env (\<lambda>k. (False, Resolves (ok_response (Some (Done False))))) None)
        (request_of [user_message ''hi'']) (initial_state [])))) = [None]"
proof -
  let ?r = "ok_response (Some (Done False))"
  let ?env = "example_env (\<lambda>k. (False, Resolves ?r)) None"
  have h1: "fetch ?env (fetch_calls (initial_state [])) = (False, Resolves ?r)"
    by (simp add: example_env_def)
  have h2: "res_ok ?r" by (simp add: ok_response_def)
  have h3: "onResponse_passes ?env ?r" by (simp add: onResponse_passes_def example_env_def)
  have h4: "res_body ?r = Some (Done False)" by (simp add: ok_response_def)
  from zero_chunks_undefined [OF h1 h2 h3 h4, of "request_of [user_message ''hi'']"] h1 h2 h3 h4
  show ?thesis
    by (simp add: request_of_def initial_state_def example_env_def)
qed

section \<open>A success response without a body\<close>

text \<open>
  When the response has a success status and no body, the routine throws and leaves the
  store at the optimistic update: the store was replaced once, by the envelope's messages.
\<close>

lemma empty_body_throws:
  assumes f: "fetch env (fetch_calls s) = (stopped, Resolves r)"
    and ok: "res_ok r" and pass: "onResponse_passes env r"
    and body: "res_body r = None"
  shows "fst (getStreamedResponse env req s) = Inl (Error ''The response body is empty.'')
    \<and> store (snd (getStreamedResponse env req s)) = req_messages req
    \<and> mutations (trace (snd (getStreamedResponse env req s))) = mutations (trace s) @ [req_messages req]"
  using assms
  by (auto simp add: getStreamedResponse_def check_response_def read_body_def
      onResponse_passes_def await_trace split: option.splits)

text \<open>
  Claim C3 asks for a rollback to the snapshot when a success response has no body.
  The code throws without one (lines 342 to 344), unlike the two failure paths before
  it: appending a user message to a one-message conversation and receiving such a
  response throws \<^verbatim>\<open>The response body is empty.\<close> and leaves two messages in the store.
\<close>

theorem empty_body_not_rolled_back:
  "fst (append_message 1 (example_env (\<lambda>k. (False, Resolves (ok_response None))) None)
         (user_message ''hi'') None None (initial_state [assistant_message ''a0'' ''Welcome'']))
     = Throws (Error ''The response body is empty.'')
   \<and> store (snd (append_message 1 (example_env (\<lambda>k. (False, Resolves (ok_response None))) None)
         (user_message ''hi'') None None (initial_state [assistant_message ''a0'' ''Welcome''])))
     = [assistant_message ''a0'' ''Welcome'', (user_message ''hi'')\<lparr>msg_id := Some ''id''\<rparr>]
   \<and> store (snd (append_message 1 (example_env (\<lambda>k. (False, Resolves (ok_response None))) None)
         (user_message ''hi'') None None (initial_state [assistant_message ''a0'' ''Welcome''])))
     \<noteq> store (initial_state [assistant_message ''a0'' ''Welcome''])"
  by (simp add: append_message_def assign_id_def lacks_id_def user_message_def append_request_def
      trigger_def getStreamedResponse_def check_response_def read_body_def example_env_def
      ok_response_def initial_state_def Let_def)

section \<open>Plain text streams\<close>

text \<open>
  Claim C7. When the text of an undisturbed stream does not start with the function-call
  marker (and then no accumulated text on the way does), the store is replaced once per
  chunk by the envelope's messages followed by an assistant message whose content is
  the concatenation of the chunks decoded so far; all these messages carry the one
  identifier drawn for the reply; the routine returns the last of them, whose content is
  the whole text, and it is the last element of the store.
\<close>

theorem plain_stream_accumulates:
  assumes live: "abortControllerRef s"
    and f: "fetch env (fetch_calls s) = (False, Resolves r)"
    and ok: "res_ok r" and pass: "onResponse_passes env r"
    and body: "res_body r = Some (feed chunks (Done False))"
    and plain: "\<not> startsWith (decoded env chunks) marker"
  shows "fst (getStreamedResponse env req s) =
           Inr (if chunks = [] then None
                else Some \<lparr>msg_id = Some (nanoid env (nanoid_calls s)),
                           createdAt = Some (Date_now env (Suc (fetch_calls s))),
                           content = decoded env chunks, role = Assistant, name = None,
                           function_call = None\<rparr>)
     \<and> mutations (trace (snd (getStreamedResponse env req s))) =
         mutations (trace s) @ req_messages req #
           map (\<lambda>p. req_messages req @
                  [\<lparr>msg_id = Some (nanoid env (nanoid_calls s)),
                    createdAt = Some (Date_now env (Suc (fetch_calls s))),
                    content = decoded env p, role = Assistant, name = None,
                    function_call = None\<rparr>])
             (tl (prefixes chunks))
     \<and> store (snd (getStreamedResponse env req s)) =
         (if chunks = [] then req_messages req
          else req_messages req @
                  [\<lparr>msg_id = Some (nanoid env (nanoid_calls s)),
                    createdAt = Some (Date_now env (Suc (fetch_calls s))),
                    content = decoded env chunks, role = Assistant, name = None,
                    function_call = None\<rparr>])"
proof -
  let ?rid = "nanoid env (nanoid_calls s)"
  let ?cr = "Date_now env (Suc (fetch_calls s))"
  have ip: "in_progress ?rid ?cr (decoded env chunks) = content_message ?rid ?cr (decoded env chunks)"
    using plain by (simp add: in_progress_def)
  have lp: "chunks \<noteq> [] \<Longrightarrow> tl (prefixes chunks) \<noteq> [] \<and> last (tl (prefixes chunks)) = chunks"
    by (cases chunks rule: rev_cases) (simp_all)
  show ?thesis
    unfolding getStreamedResponse_undisturbed [OF live f ok pass body] stream_states_plain [OF plain]
    using plain ip lp
    by (simp add: finish_stream_def content_message_def last_map)
qed

theorem plain_stream_accumulates_witness:
  "abortControllerRef (live_state [])
   \<and> fetch (streaming_env plain_chunks) (fetch_calls (live_state []))
       = (False, Resolves (ok_response (Some (feed plain_chunks (Done False)))))
   \<and> res_ok (ok_response (Some (feed plain_chunks (Done False))))
   \<and> onResponse_passes (streaming_env plain_chunks) (ok_response (Some (feed plain_chunks (Done False))))
   \<and> res_body (ok_response (Some (feed plain_chunks (Done False)))) = Some (feed plain_chunks (Done False))
   \<and> \<not> startsWith (decoded (streaming_env plain_chunks) plain_chunks) marker
   \<and> fst (getStreamedResponse (streaming_env plain_chunks) (request_of [user_message ''hi'']) (live_state []))
       = Inr (Some \<lparr>msg_id = Some ''id'', createdAt = Some 1, content = ''Hello world'',
                    role = Assistant, name = None, function_call = None\<rparr>)
   \<and> mutations (trace (snd (getStreamedResponse (streaming_env plain_chunks)
         (request_of [user_message ''hi'']) (live_state []))))
       = [[user_message ''hi''],
          [user_message ''hi'',
           \<lparr>msg_id = Some ''id'', createdAt = Some 1, content = ''Hel'',
            role = Assistant, name = None, function_call = None\<rparr>],
          [user_message ''hi'',
           \<lparr>msg_id = Some ''id'', createdAt = Some 1, content = ''Hello wor'',
            role = Assistant, name = None, function_call = None\<rparr>],
          [user_message ''hi'',
           \<lparr>msg_id = Some ''id'', createdAt = Some 1, content = ''Hello world'',
            role = Assistant, name = None, function_call = None\<rparr>]]"
proof -
  let ?env = "streaming_env plain_chunks"
  let ?r = "ok_response (Some (feed plain_chunks (Done False)))"
  have h1: "abortControllerRef (live_state [])" by (simp add: live_state_def)
  have h2: "fetch ?env (fetch_calls (live_state [])) = (False, Resolves ?r)"
    by (simp add: streaming_env_def example_env_def)
  have h3: "res_ok ?r" by (simp add: ok_response_def)
  have h4: "onResponse_passes ?env ?r"
    by (simp add: onResponse_passes_def streaming_env_def example_env_def)
  have h5: "res_body ?r = Some (feed plain_chunks (Done False))" by (simp add: ok_response_def)
  have h6: "\<not> startsWith (decoded ?env plain_chunks) marker"
    by (simp add: startsWith_def marker_def decoded_def plain_chunks_def streaming_env_def
        example_env_def)
  from plain_stream_accumulates [OF h1 h2 h3 h4 h5 h6, of "request_of [user_message ''hi'']"]
    h1 h2 h3 h4 h5 h6
  show ?thesis
    by (simp add: plain_chunks_def decoded_def streaming_env_def example_env_def live_state_def
        initial_state_def request_of_def)
qed

section \<open>Function-call streams\<close>



section \<open>The function-call round trip\<close>

lemma startsWith_call_text: "startsWith call_text marker"
  by (simp add: startsWith_def marker_def call_text_def)

lemma parse_function_call_call_text:
  assumes "JSON_parse env call_text = json_parse call_text"
  shows "parse_function_call env call_text = Inr (Some call_value)"
  using assms by (simp add: parse_function_call_def json_parse_call_text)

text \<open>
  Claim C6. Let an undisturbed stream yield exactly the text
  \<^verbatim>\<open>{"function_call":{"name":"get_current_time","arguments":"{}"}}\<close>, in whatever chunks,
  and let \<^verbatim>\<open>JSON.parse\<close> read it as the model of the grammar does. Then the store ends with
  the assistant message whose \<^verbatim>\<open>function_call\<close> is the structured value with that name and
  those arguments. With a handler configured, one iteration of the loop is: the request
  (one fetch, no handler call), then one call of the handler with that value and the
  envelope carrying the current messages, then the loop continued on the envelope the
  handler returned, whose optimistic replace and fetch are the next events.
\<close>

theorem function_call_round_trip:
  assumes live: "abortControllerRef s"
    and f: "fetch env (fetch_calls s) = (False, Resolves r)"
    and ok: "res_ok r" and pass: "onResponse_passes env r"
    and body: "res_body r = Some (feed chunks (Done False))"
    and whole: "decoded env chunks = call_text"
    and parse: "JSON_parse env call_text = json_parse call_text"
    and h: "functionCallHandler env = Some handler"
    and ret: "handler call_value
                (req\<lparr>req_messages := req_messages req @
                   [call_message (nanoid env (nanoid_calls s)) (Date_now env (Suc (fetch_calls s)))]\<rparr>)
              = Inr next_request"
  shows "store (snd (getStreamedResponse env req s)) =
           req_messages req @
             [call_message (nanoid env (nanoid_calls s)) (Date_now env (Suc (fetch_calls s)))]
     \<and> function_call_loop (Suc fuel) env req s =
         function_call_loop fuel env next_request
           (log_event
              (HandlerCall call_value
                 (req\<lparr>req_messages := req_messages req @
                    [call_message (nanoid env (nanoid_calls s))
                       (Date_now env (Suc (fetch_calls s)))]\<rparr>))
              (snd (getStreamedResponse env req s)))
     \<and> handler_calls (trace (snd (getStreamedResponse env req s))) = handler_calls (trace s)
     \<and> fetches (trace (snd (getStreamedResponse env req s))) = fetches (trace s) @ [req]
     \<and> prefix (trace (snd (getStreamedResponse env req s)) @
                 [HandlerCall call_value
                    (req\<lparr>req_messages := req_messages req @
                       [call_message (nanoid env (nanoid_calls s))
                          (Date_now env (Suc (fetch_calls s)))]\<rparr>),
                  Mutate (req_messages next_request), Fetch next_request])
           (trace (snd (function_call_loop (Suc (Suc fuel)) env req s)))"
proof -
  let ?rid = "nanoid env (nanoid_calls s)"
  let ?cr = "Date_now env (Suc (fetch_calls s))"
  let ?m = "call_message ?rid ?cr"
  let ?arg = "req\<lparr>req_messages := req_messages req @ [?m]\<rparr>"
  let ?g = "getStreamedResponse env req s"
  note u = getStreamedResponse_undisturbed [OF live f ok pass body, of req]
  have p: "parse_function_call env call_text = Inr (Some call_value)"
    using parse by (rule parse_function_call_call_text)
  have ne: "chunks \<noteq> []" using whole by (auto simp add: call_text_def)
  have out: "fst ?g = Inr (Some (in_progress ?rid ?cr call_text))"
    unfolding u using p ne by (simp add: whole finish_stream_def startsWith_call_text Let_def)
  have st: "store (snd ?g) = req_messages req @ [?m]"
    unfolding u using p by (simp add: whole finish_stream_def startsWith_call_text Let_def call_message_def)
  have hc: "handler_calls (trace (snd ?g)) = handler_calls (trace s)"
    and fe: "fetches (trace (snd ?g)) = fetches (trace s) @ [req]"
    using getStreamedResponse_trace [of env req s] by auto
  have fcm: "function_call ?m = Some call_value" by (simp add: call_message_def)
  have step: "function_call_loop (Suc k) env req s =
      function_call_loop k env next_request (log_event (HandlerCall call_value ?arg) (snd ?g))" for k
    using out st h ret fcm
    by (simp add: prod.case_eq_if Let_def call_value_def)
  from function_call_loop_starts [of "log_event (HandlerCall call_value ?arg) (snd ?g)" next_request fuel env]
  have nx: "prefix (trace (snd ?g) @ [HandlerCall call_value ?arg,
                  Mutate (req_messages next_request), Fetch next_request])
           (trace (snd (function_call_loop (Suc (Suc fuel)) env req s)))"
    unfolding step [of "Suc fuel"] by simp
  from st step [of fuel] hc fe nx show ?thesis by blast
qed

lemma round_trip_result: "fst (trigger (Suc (Suc 0)) round_trip_env (request_of [user_message ''time?'']) (initial_state []))
   = Returns (Some ''It is noon.'')"
  by (simp add: trigger_def getStreamedResponse_def check_response_def read_body_def
      finish_stream_def round_trip_env_def example_env_def ok_response_def initial_state_def
      request_of_def in_progress_def startsWith_call_text [unfolded startsWith_def marker_def] parse_function_call_def
      json_parse_call_text Let_def time_handler_def pending_message_def content_message_def
      call_value_def startsWith_def marker_def)

lemma round_trip_calls: "handler_calls (trace (snd (trigger (Suc (Suc 0)) round_trip_env (request_of [user_message ''time?'']) (initial_state []))))
   = [(call_value, request_of [user_message ''time?'', call_message ''id'' 1])]
  \<and> fetches (trace (snd (trigger (Suc (Suc 0)) round_trip_env (request_of [user_message ''time?'']) (initial_state []))))
   = [request_of [user_message ''time?''], round_trip_next]"
  by (simp add: trigger_def getStreamedResponse_def check_response_def read_body_def
      finish_stream_def round_trip_env_def example_env_def ok_response_def initial_state_def
      request_of_def in_progress_def startsWith_call_text [unfolded startsWith_def marker_def] parse_function_call_def
      json_parse_call_text Let_def time_handler_def pending_message_def content_message_def
      call_value_def startsWith_def marker_def call_message_def round_trip_next_def)


theorem function_call_round_trip_witness:
  "abortControllerRef (live_state [])
   \<and> fetch round_trip_env (fetch_calls (live_state []))
       = (False, Resolves (ok_response (Some (feed [call_text] (Done False)))))
   \<and> res_ok (ok_response (Some (feed [call_text] (Done False))))
   \<and> onResponse_passes round_trip_env (ok_response (Some (feed [call_text] (Done False))))
   \<and> res_body (ok_response (Some (feed [call_text] (Done False)))) = Some (feed [call_text] (Done False))
   \<and> decoded round_trip_env [call_text] = call_text
   \<and> JSON_parse round_trip_env call_text = json_parse call_text
   \<and> functionCallHandler round_trip_env = Some time_handler
   \<and> time_handler call_value (request_of [user_message ''time?'', call_message ''id'' 1])
       = Inr round_trip_next
   \<and> store (snd (getStreamedResponse round_trip_env (request_of [user_message ''time?'']) (live_state [])))
       = [user_message ''time?'', call_message ''id'' 1]
   \<and> prefix [Mutate [user_message ''time?''],
              Fetch (request_of [user_message ''time?'']),
              Mutate [user_message ''time?'', pending_message ''id'' 1 call_text],
              Mutate [user_message ''time?'', call_message ''id'' 1],
              OnFinish (Some (pending_message ''id'' 1 call_text)),
              HandlerCall call_value (request_of [user_message ''time?'', call_message ''id'' 1]),
              Mutate (req_messages round_trip_next), Fetch round_trip_next]
        (trace (snd (function_call_loop (Suc (Suc 0)) round_trip_env
                       (request_of [user_message ''time?'']) (live_state []))))
   \<and> fst (trigger (Suc (Suc 0)) round_trip_env (request_of [user_message ''time?''])
            (initial_state [])) = Returns (Some ''It is noon.'')
   \<and> handler_calls (trace (snd (trigger (Suc (Suc 0)) round_trip_env
         (request_of [user_message ''time?'']) (initial_state []))))
       = [(call_value, request_of [user_message ''time?'', call_message ''id'' 1])]
   \<and> fetches (trace (snd (trigger (Suc (Suc 0)) round_trip_env
         (request_of [user_message ''time?'']) (initial_state []))))
       = [request_of [user_message ''time?''], round_trip_next]"
proof -
  let ?r = "ok_response (Some (feed [call_text] (Done False)))"
  let ?req = "request_of [user_message ''time?'']"
  have h1: "abortControllerRef (live_state [])" by (simp add: live_state_def)
  have h2: "fetch round_trip_env (fetch_calls (live_state [])) = (False, Resolves ?r)"
    by (simp add: round_trip_env_def example_env_def live_state_def initial_state_def)
  have h3: "res_ok ?r" by (simp add: ok_response_def)
  have h4: "onResponse_passes round_trip_env ?r"
    by (simp add: onResponse_passes_def round_trip_env_def example_env_def)
  have h5: "res_body ?r = Some (feed [call_text] (Done False))" by (simp add: ok_response_def)
  have h6: "decoded round_trip_env [call_text] = call_text"
    by (simp add: decoded_def round_trip_env_def example_env_def)
  have h7: "JSON_parse round_trip_env call_text = json_parse call_text"
    by (simp add: round_trip_env_def example_env_def)
  have h8: "functionCallHandler round_trip_env = Some time_handler"
    by (simp add: round_trip_env_def example_env_def)
  have ids: "nanoid round_trip_env (nanoid_calls (live_state [])) = ''id''"
    "Date_now round_trip_env (Suc (fetch_calls (live_state []))) = 1"
    "trace (live_state []) = []"
    by (simp_all add: round_trip_env_def example_env_def live_state_def initial_state_def)
  have dec: "decodeAIStreamChunk round_trip_env v = v" for v
    by (simp add: round_trip_env_def example_env_def)
  have fin: "onFinish round_trip_env" by (simp add: round_trip_env_def example_env_def)
  have rq: "?req\<lparr>req_messages := req_messages ?req @ [call_message ''id'' 1]\<rparr>
      = request_of [user_message ''time?'', call_message ''id'' 1]"
    by (simp add: request_of_def)
  have h9: "time_handler call_value
      (?req\<lparr>req_messages := req_messages ?req @
         [call_message (nanoid round_trip_env (nanoid_calls (live_state [])))
            (Date_now round_trip_env (Suc (fetch_calls (live_state []))))]\<rparr>) = Inr round_trip_next"
    unfolding ids rq by (simp add: time_handler_def round_trip_next_def request_of_def)
  have tr: "trace (snd (getStreamedResponse round_trip_env ?req (live_state []))) =
      [Mutate [user_message ''time?''], Fetch ?req,
       Mutate [user_message ''time?'', pending_message ''id'' 1 call_text],
       Mutate [user_message ''time?'', call_message ''id'' 1],
       OnFinish (Some (pending_message ''id'' 1 call_text))]"
    unfolding getStreamedResponse_undisturbed [OF h1 h2 h3 h4 h5] ids h6
    by (simp add: finish_stream_def startsWith_call_text parse_function_call_call_text [OF h7]
        stream_states_def in_progress_def h6 ids request_of_def call_message_def fin dec)
  from function_call_round_trip [OF h1 h2 h3 h4 h5 h6 h7 h8 h9, of 0]
  have "store (snd (getStreamedResponse round_trip_env ?req (live_state [])))
       = [user_message ''time?'', call_message ''id'' 1]
   \<and> prefix [Mutate [user_message ''time?''], Fetch ?req,
              Mutate [user_message ''time?'', pending_message ''id'' 1 call_text],
              Mutate [user_message ''time?'', call_message ''id'' 1],
              OnFinish (Some (pending_message ''id'' 1 call_text)),
              HandlerCall call_value (request_of [user_message ''time?'', call_message ''id'' 1]),
              Mutate (req_messages round_trip_next), Fetch round_trip_next]
        (trace (snd (function_call_loop (Suc (Suc 0)) round_trip_env ?req (live_state []))))"
    unfolding ids rq tr by (simp add: request_of_def)
  with h1 h2 h3 h4 h5 h6 h7 h8 h9 [unfolded ids rq] round_trip_result round_trip_calls
  show ?thesis by blast
qed

section \<open>A function call without a handler\<close>

text \<open>
  When the response is a structured function call and no handler is configured, the
  loop neither leaves nor changes the request: it runs the same request again.
\<close>

lemma no_handler_resubmits:
  assumes live: "abortControllerRef s"
    and f: "fetch env (fetch_calls s) = (False, Resolves r)"
    and ok: "res_ok r" and pass: "onResponse_passes env r"
    and body: "res_body r = Some (feed chunks (Done False))"
    and fc: "startsWith (decoded env chunks) marker"
    and parsed: "parse_function_call env (decoded env chunks) = Inr (Some (JObject kvs))"
    and h: "functionCallHandler env = None"
  shows "function_call_loop (Suc fuel) env req s =
           function_call_loop fuel env req (snd (getStreamedResponse env req s))
     \<and> abortControllerRef (snd (getStreamedResponse env req s))
     \<and> fetches (trace (snd (getStreamedResponse env req s))) = fetches (trace s) @ [req]"
proof -
  let ?g = "getStreamedResponse env req s"
  note u = getStreamedResponse_undisturbed [OF live f ok pass body, of req]
  have out: "\<exists>m. fst ?g = Inr m"
    unfolding u using fc parsed by (simp add: finish_stream_def Let_def)
  have st: "store (snd ?g) = req_messages req @
       [\<lparr>msg_id = Some (nanoid env (nanoid_calls s)),
         createdAt = Some (Date_now env (Suc (fetch_calls s))), content = [], role = Assistant,
         name = None, function_call = Some (JObject kvs)\<rparr>]"
    unfolding u using fc parsed by (simp add: finish_stream_def Let_def)
  have ab: "abortControllerRef (snd ?g)"
    unfolding u using fc parsed live by (simp add: finish_stream_def Let_def)
  have fe: "fetches (trace (snd ?g)) = fetches (trace s) @ [req]"
    using getStreamedResponse_trace [of env req s] by auto
  from out obtain m where "fst ?g = Inr m" by blast
  with st h have "function_call_loop (Suc fuel) env req s = function_call_loop fuel env req (snd ?g)"
    by (simp add: prod.case_eq_if)
  with ab fe show ?thesis by blast
qed

lemma no_handler_loop:
  "abortControllerRef s \<Longrightarrow>
   fst (function_call_loop fuel no_handler_env req s) = Running
   \<and> fetches (trace (snd (function_call_loop fuel no_handler_env req s)))
       = fetches (trace s) @ replicate fuel req"
proof (induction fuel arbitrary: s)
  case 0
  then show ?case by simp
next
  case (Suc fuel)
  let ?r = "ok_response (Some (feed [call_text] (Done False)))"
  have f: "fetch no_handler_env (fetch_calls s) = (False, Resolves ?r)"
    by (simp add: no_handler_env_def streaming_env_def example_env_def)
  have ok: "res_ok ?r" and body: "res_body ?r = Some (feed [call_text] (Done False))"
    by (simp_all add: ok_response_def)
  have pass: "onResponse_passes no_handler_env ?r"
    by (simp add: onResponse_passes_def no_handler_env_def streaming_env_def example_env_def)
  have d: "decoded no_handler_env [call_text] = call_text"
    by (simp add: decoded_def no_handler_env_def streaming_env_def example_env_def)
  have fc: "startsWith (decoded no_handler_env [call_text]) marker"
    unfolding d by (rule startsWith_call_text)
  have p: "parse_function_call no_handler_env (decoded no_handler_env [call_text])
      = Inr (Some (JObject [(''name'', JString ''get_current_time''), (''arguments'', JString ''{}'')]))"
    unfolding d
    using parse_function_call_call_text [of no_handler_env]
    by (simp add: no_handler_env_def streaming_env_def example_env_def call_value_def)
  have h: "functionCallHandler no_handler_env = None"
    by (simp add: no_handler_env_def streaming_env_def example_env_def)
  from no_handler_resubmits [OF Suc.prems f ok pass body fc p h, of fuel req]
  have step: "function_call_loop (Suc fuel) no_handler_env req s =
           function_call_loop fuel no_handler_env req (snd (getStreamedResponse no_handler_env req s))"
    and ab: "abortControllerRef (snd (getStreamedResponse no_handler_env req s))"
    and fe: "fetches (trace (snd (getStreamedResponse no_handler_env req s))) = fetches (trace s) @ [req]"
    by blast+
  from Suc.IH [OF ab] show ?case
    unfolding step fe by (simp add: replicate_app_Cons_same)
qed

text \<open>
  Claim C2 asks that, without a handler, a structured function call ends the loop with no
  further request. In the code the test for the handler has no other branch (lines 427
  to 437), so the loop goes round: against a server that answers every request with the
  call, the mutation function is still running after any number of iterations, having
  fetched the same envelope once per iteration.
\<close>

theorem no_handler_loop_never_ends:
  "\<forall>fuel. fst (trigger fuel no_handler_env (request_of [user_message ''time?'']) (initial_state []))
             = Running
         \<and> fetches (trace (snd (trigger fuel no_handler_env (request_of [user_message ''time?''])
                                   (initial_state []))))
             = replicate fuel (request_of [user_message ''time?''])"
proof
  fix fuel
  let ?s0 = "(initial_state [])\<lparr>abortControllerRef := True\<rparr>"
  have "abortControllerRef ?s0" by simp
  from no_handler_loop [OF this, of fuel "request_of [user_message ''time?'']"]
  show "fst (trigger fuel no_handler_env (request_of [user_message ''time?'']) (initial_state []))
             = Running
         \<and> fetches (trace (snd (trigger fuel no_handler_env (request_of [user_message ''time?''])
                                   (initial_state []))))
             = replicate fuel (request_of [user_message ''time?''])"
    by (simp add: trigger_def prod.case_eq_if initial_state_def)
qed

section \<open>Stopping in mid-stream\<close>

lemma stream_states_snoc:
  "stream_states env req rid cr [] (pre @ [v]) =
     stream_states env req rid cr [] pre @ [req_messages req @ [in_progress rid cr (decoded env (pre @ [v]))]]"
  by (simp add: stream_states_def prefixes_snoc tl_append split: list.splits)

text \<open>
  Claim C4, as the code has it. The controller is consulted after a chunk has been
  decoded and written to the store (lines 387 to 391), not before. So when \<^verbatim>\<open>stop()\<close> is
  called while a read is pending and that read rejects with the abort, the mutation
  function returns \<^verbatim>\<open>null\<close> and the store keeps the last state written, with no rollback;
  and when that read still delivers a chunk, the chunk is written to the store like the
  ones before it, and nothing of the reads after it is: the only later replace is the
  final one of a text that starts with the marker and parses.
\<close>

theorem stop_mid_stream:
  assumes live: "abortControllerRef s"
    and f: "fetch env (fetch_calls s) = (False, Resolves r)"
    and ok: "res_ok r" and pass: "onResponse_passes env r"
  shows "(res_body r = Some (feed pre (ReadRejects True AbortError)) \<longrightarrow>
            fst (trigger (Suc fuel) env req s) = Returns None
          \<and> mutations (trace (snd (trigger (Suc fuel) env req s))) =
               mutations (trace s) @ req_messages req #
                 stream_states env req (nanoid env (nanoid_calls s))
                   (Date_now env (Suc (fetch_calls s))) [] pre
          \<and> store (snd (trigger (Suc fuel) env req s)) =
               last (req_messages req #
                 stream_states env req (nanoid env (nanoid_calls s))
                   (Date_now env (Suc (fetch_calls s))) [] pre))
     \<and> (res_body r = Some (feed pre (Chunk True v rest)) \<longrightarrow>
            mutations (trace (snd (getStreamedResponse env req s))) =
               mutations (trace s) @ req_messages req #
                 stream_states env req (nanoid env (nanoid_calls s))
                   (Date_now env (Suc (fetch_calls s))) [] (pre @ [v]) @
                 (if startsWith (decoded env (pre @ [v])) marker
                  then (case parse_function_call env (decoded env (pre @ [v])) of
                          Inl err \<Rightarrow> []
                        | Inr w \<Rightarrow>
                            [req_messages req @
                               [\<lparr>msg_id = Some (nanoid env (nanoid_calls s)),
                                 createdAt = Some (Date_now env (Suc (fetch_calls s))),
                                 content = [], role = Assistant, name = None,
                                 function_call = w\<rparr>]])
                  else []))"
proof -
  let ?rid = "nanoid env (nanoid_calls s)"
  let ?cr = "Date_now env (Suc (fetch_calls s))"
  have a: "fst (trigger (Suc fuel) env req s) = Returns None
          \<and> mutations (trace (snd (trigger (Suc fuel) env req s))) =
               mutations (trace s) @ req_messages req # stream_states env req ?rid ?cr [] pre
          \<and> store (snd (trigger (Suc fuel) env req s)) =
               last (req_messages req # stream_states env req ?rid ?cr [] pre)"
    if body: "res_body r = Some (feed pre (ReadRejects True AbortError))"
  proof -
    have "getStreamedResponse env req s =
        (Inl AbortError, await True (replaces (stream_states env req ?rid ?cr [] pre) (reading req s)))"
      unfolding getStreamedResponse_feed [OF live f ok pass body] by simp
    then show ?thesis
      by (simp add: trigger_def install_live [OF live] await_trace)
  qed
  have b: "mutations (trace (snd (getStreamedResponse env req s))) =
               mutations (trace s) @ req_messages req #
                 stream_states env req ?rid ?cr [] (pre @ [v]) @
                 (if startsWith (decoded env (pre @ [v])) marker
                  then (case parse_function_call env (decoded env (pre @ [v])) of
                          Inl err \<Rightarrow> []
                        | Inr w \<Rightarrow>
                            [req_messages req @
                               [\<lparr>msg_id = Some ?rid, createdAt = Some ?cr,
                                 content = [], role = Assistant, name = None,
                                 function_call = w\<rparr>]])
                  else [])"
    if body: "res_body r = Some (feed pre (Chunk True v rest))"
    unfolding getStreamedResponse_feed [OF live f ok pass body] stream_states_snoc
    by (simp add: Let_def finish_stream_def await_trace split: sum.splits)
  from a b show ?thesis by blast
qed

theorem stop_mid_stream_witness:
  "abortControllerRef (live_state [])
   \<and> fetch (reads_env aborted_reads) (fetch_calls (live_state []))
       = (False, Resolves (ok_response (Some aborted_reads)))
   \<and> res_ok (ok_response (Some aborted_reads))
   \<and> onResponse_passes (reads_env aborted_reads) (ok_response (Some aborted_reads))
   \<and> res_body (ok_response (Some aborted_reads)) = Some (feed [''Hel''] (ReadRejects True AbortError))
   \<and> fst (trigger (Suc 0) (reads_env aborted_reads) (request_of [user_message ''hi'']) (live_state []))
       = Returns None
   \<and> store (snd (trigger (Suc 0) (reads_env aborted_reads) (request_of [user_message ''hi''])
                     (live_state [])))
       = [user_message ''hi'', content_message ''id'' 1 ''Hel'']
   \<and> fetch (reads_env late_chunk_reads) (fetch_calls (live_state []))
       = (False, Resolves (ok_response (Some late_chunk_reads)))
   \<and> res_ok (ok_response (Some late_chunk_reads))
   \<and> onResponse_passes (reads_env late_chunk_reads) (ok_response (Some late_chunk_reads))
   \<and> res_body (ok_response (Some late_chunk_reads))
       = Some (feed [''Hel''] (Chunk True ''lo'' (Chunk False ''!'' (Done False))))
   \<and> mutations (trace (snd (getStreamedResponse (reads_env late_chunk_reads)
                               (request_of [user_message ''hi'']) (live_state []))))
       = [[user_message ''hi''],
          [user_message ''hi'', content_message ''id'' 1 ''Hel''],
          [user_message ''hi'', content_message ''id'' 1 ''Hello'']]"
proof -
  let ?ra = "ok_response (Some aborted_reads)"
  let ?rb = "ok_response (Some late_chunk_reads)"
  let ?req = "request_of [user_message ''hi'']"
  have h1: "abortControllerRef (live_state [])" by (simp add: live_state_def)
  have a2: "fetch (reads_env aborted_reads) (fetch_calls (live_state [])) = (False, Resolves ?ra)"
    and b2: "fetch (reads_env late_chunk_reads) (fetch_calls (live_state [])) = (False, Resolves ?rb)"
    by (simp_all add: reads_env_def example_env_def)
  have a3: "res_ok ?ra" and b3: "res_ok ?rb" by (simp_all add: ok_response_def)
  have a4: "onResponse_passes (reads_env aborted_reads) ?ra"
    and b4: "onResponse_passes (reads_env late_chunk_reads) ?rb"
    by (simp_all add: onResponse_passes_def reads_env_def example_env_def)
  have a5: "res_body ?ra = Some (feed [''Hel''] (ReadRejects True AbortError))"
    and b5: "res_body ?rb = Some (feed [''Hel''] (Chunk True ''lo'' (Chunk False ''!'' (Done False))))"
    by (simp_all add: ok_response_def aborted_reads_def late_chunk_reads_def)
  from stop_mid_stream [OF h1 a2 a3 a4, where pre = "[''Hel'']" and fuel = 0 and req = ?req]
    stop_mid_stream [OF h1 b2 b3 b4, where pre = "[''Hel'']" and v = "''lo''"
      and rest = "Chunk False ''!'' (Done False)" and req = ?req]
    h1 a2 a3 a4 a5 b2 b3 b4 b5
  show ?thesis
    by (simp add: stream_states_def in_progress_def startsWith_def marker_def decoded_def
        reads_env_def example_env_def live_state_def initial_state_def request_of_def)
qed

text \<open>
  Claim C4 as stated fails: with \<^verbatim>\<open>stop()\<close> called while the second read is pending and
  that read delivering \<^verbatim>\<open>lo\<close>, the store is replaced after the abort by a message built
  from that chunk, and the mutation function returns its content, not \<^verbatim>\<open>null\<close>.
\<close>

theorem late_chunk_is_stored:
  "trace (snd (trigger (Suc 0) (reads_env late_chunk_reads) (request_of [user_message ''hi''])
                 (initial_state [])))
     = [Mutate [user_message ''hi''],
        Fetch (request_of [user_message ''hi'']),
        Mutate [user_message ''hi'', content_message ''id'' 1 ''Hel''],
        Abort,
        Mutate [user_message ''hi'', content_message ''id'' 1 ''Hello''],
        ReaderCancel,
        OnFinish (Some (content_message ''id'' 1 ''Hello''))]
   \<and> fst (trigger (Suc 0) (reads_env late_chunk_reads) (request_of [user_message ''hi''])
            (initial_state []))
     = Returns (Some ''Hello'')"
  by (simp add: trigger_def getStreamedResponse_def check_response_def read_body_def
      finish_stream_def late_chunk_reads_def reads_env_def example_env_def ok_response_def
      initial_state_def request_of_def in_progress_def startsWith_def marker_def Let_def
      await_def stop_def mutate_def log_event_def content_message_def)

section \<open>Append\<close>













end
